theory Spec2Isabelle
  imports Main "HOL-Library.Word"
begin

unbundle bit_operations_syntax

section \<open>sshctl: a client for the OpenSSH ControlMaster mux protocol\<close>

text \<open>
  A shallow embedding of \<^verbatim>\<open>mux.go\<close> and of the Session API built on it.
  Go's \<^verbatim>\<open>int\<close> is 64 bits wide on every platform the package compiles on (the
  untyped constants \<^verbatim>\<open>0x80000005\<close> .. \<^verbatim>\<open>0x80000008\<close> are compared with
  \<^verbatim>\<open>int\<close> values, which a 32-bit \<^verbatim>\<open>int\<close> rejects at compile time). Every
  \<^verbatim>\<open>int\<close> of the package is either \<^verbatim>\<open>-1\<close>, a converted \<^verbatim>\<open>uint32\<close>, or the
  request counter (0, 1, 2), so \<^typ>\<open>int\<close> models it without wrap-around; the
  \<^verbatim>\<open>uint32\<close> conversions, which do truncate, are \<^typ>\<open>32 word\<close>.
\<close>

subsection \<open>Bytes, big-endian fields and strings\<close>

type_synonym byte = "8 word"
type_synonym uint32 = "32 word"

text \<open>
  \<^verbatim>\<open>binary.BigEndian.Uint32(b)\<close>:
  \<^verbatim>\<open>uint32(b[3]) | uint32(b[2])<<8 | uint32(b[1])<<16 | uint32(b[0])<<24\<close>.
  Go panics when \<^verbatim>\<open>b\<close> has fewer than four bytes; both callers establish the
  length first, and the model says nothing about shorter slices.
\<close>

definition Uint32 :: "byte list \<Rightarrow> uint32" where
  "Uint32 b = ucast (b ! 3) OR push_bit 8 (ucast (b ! 2)) OR
              push_bit 16 (ucast (b ! 1)) OR push_bit 24 (ucast (b ! 0))"

text \<open>
  \<^verbatim>\<open>binary.BigEndian.PutUint32(b, v)\<close>: the four bytes it stores at \<^verbatim>\<open>b[0..3]\<close>,
  \<^verbatim>\<open>byte(v >> 24), byte(v >> 16), byte(v >> 8), byte(v)\<close>.
\<close>

definition PutUint32 :: "uint32 \<Rightarrow> byte list" where
  "PutUint32 v = [ucast (drop_bit 24 v), ucast (drop_bit 16 v), ucast (drop_bit 8 v), ucast v]"

text \<open>A Go string is a sequence of bytes; \<^verbatim>\<open>[]byte(s)\<close>.\<close>

definition bytes_of :: "string \<Rightarrow> byte list" where
  "bytes_of s = map of_char s"

subsection \<open>The control connection\<close>

text \<open>
  The \<^verbatim>\<open>*net.UnixConn\<close> as the package sees it: the bytes the master will still
  deliver before the stream ends (\<open>inq\<close>), the buffers handed to \<^verbatim>\<open>Write\<close>, one
  entry per call (\<open>outq\<close>), the descriptors handed to \<^verbatim>\<open>fd.Put\<close> (\<open>fds\<close>),
  whether \<^verbatim>\<open>Write\<close> reports an error (\<open>wbroken\<close>) and whether \<^verbatim>\<open>Close\<close> was
  called (\<open>cclosed\<close>). The flag \<open>cclosed\<close> only records the call: reading and
  writing below do not look at it, so the model describes a connection up to the
  moment this side closes it, and says nothing true of a read or a write after
  that (in Go both fail then).
\<close>

type_synonym osfile = nat

record conn =
  inq :: "byte list"
  outq :: "byte list list"
  fds :: "osfile option list"
  wbroken :: bool
  cclosed :: bool

text \<open>
  \<^verbatim>\<open>Waitmsg\<close>, the information about an exited remote command, with its accessors.
\<close>

record Waitmsg =
  status :: int
  signal :: string
  msg :: string
  lang :: string

definition ExitStatus :: "Waitmsg \<Rightarrow> int" where
  "ExitStatus w = status w"

definition Signal :: "Waitmsg \<Rightarrow> string" where
  "Signal w = signal w"

definition Msg :: "Waitmsg \<Rightarrow> string" where
  "Msg w = msg w"

definition Lang :: "Waitmsg \<Rightarrow> string" where
  "Lang w = lang w"

text \<open>The error values of the package, one constructor per kind.\<close>

datatype error =
    ReadError            \<comment> \<open>\<^verbatim>\<open>Unable to read from control socket: ...\<close>\<close>
  | WriteError           \<comment> \<open>the error of \<^verbatim>\<open>ctrlconn.Write\<close>\<close>
  | BufferTooShort       \<comment> \<open>\<^verbatim>\<open>buffer too short\<close>\<close>
  | IncompatibleHello    \<comment> \<open>\<^verbatim>\<open>Incompatible Hello packet received\<close>\<close>
  | ExpectedAlive int    \<comment> \<open>\<^verbatim>\<open>Expected ALIVE, got: 0x%x\<close>\<close>
  | ExpectedSessionOpened int \<comment> \<open>\<^verbatim>\<open>Expected muxSessionOpened, got: 0x%x\<close>\<close>
  | OutOfSequence int    \<comment> \<open>\<^verbatim>\<open>out of sequence reply: 0x%x\<close>\<close>
  | PipeError            \<comment> \<open>the error of \<^verbatim>\<open>os.Pipe\<close>\<close>
  | MakeRawError         \<comment> \<open>\<^verbatim>\<open>MakeRaw err: ...\<close> or \<^verbatim>\<open>MakeRaw state was ...\<close>\<close>
  | DialError            \<comment> \<open>the error of \<^verbatim>\<open>net.DialUnix\<close>\<close>
  | AlreadyStarted       \<comment> \<open>\<^verbatim>\<open>ssh: session already started\<close>\<close>
  | ExitMissingError     \<comment> \<open>\<^verbatim>\<open>&ExitMissingError{}\<close>\<close>
  | ExitError Waitmsg    \<comment> \<open>\<^verbatim>\<open>&ExitError{wm}\<close>\<close>

text \<open>
  \<^verbatim>\<open>io.ReadAtLeast(conn, buf, n)\<close> with \<^verbatim>\<open>len(buf) = n\<close>: exactly \<open>n\<close> bytes when
  the stream still has them (none are read for \<open>n = 0\<close>), otherwise whatever is left
  is consumed and the read fails (\<^verbatim>\<open>EOF\<close> or \<^verbatim>\<open>ErrUnexpectedEOF\<close>).
\<close>

definition ReadAtLeast :: "conn \<Rightarrow> nat \<Rightarrow> conn \<times> byte list \<times> bool" where
  "ReadAtLeast c n =
     (if n \<le> length (inq c) then (c\<lparr>inq := drop n (inq c)\<rparr>, take n (inq c), True)
      else (c\<lparr>inq := []\<rparr>, inq c, False))"

text \<open>\<^verbatim>\<open>conn.Write(msg)\<close>: one call, one entry of \<open>outq\<close>; the flag is \<^verbatim>\<open>err == nil\<close>.\<close>

definition Write :: "conn \<Rightarrow> byte list \<Rightarrow> conn \<times> bool" where
  "Write c m = (c\<lparr>outq := outq c @ [m]\<rparr>, \<not> wbroken c)"

text \<open>
  \<^verbatim>\<open>readPacket\<close> and \<^verbatim>\<open>writePacket\<close> on the connection itself. The results follow
  Go's multiple return values: the payload (\<^verbatim>\<open>nil\<close>, here \<open>[]\<close>, with an error) and
  the error (\<^verbatim>\<open>nil\<close> is \<open>None\<close>).
\<close>

definition conn_readPacket :: "conn \<Rightarrow> conn \<times> byte list \<times> error option" where
  "conn_readPacket c =
     (case ReadAtLeast c 4 of
        (c1, lenbuf, False) \<Rightarrow> (c1, [], Some ReadError)
      | (c1, lenbuf, True) \<Rightarrow>
          (let len = Uint32 lenbuf in
           case ReadAtLeast c1 (unat len) of
             (c2, packet, False) \<Rightarrow> (c2, [], Some ReadError)
           | (c2, packet, True) \<Rightarrow> (c2, packet, None)))"

definition conn_writePacket :: "conn \<Rightarrow> byte list \<Rightarrow> conn \<times> error option" where
  "conn_writePacket c req =
     (let msg = PutUint32 (word_of_nat (length req)) @ req in
      case Write c msg of
        (c1, False) \<Rightarrow> (c1, Some WriteError)
      | (c1, True) \<Rightarrow> (c1, None))"

text \<open>
  \<^verbatim>\<open>packetPopInt(buf *[]byte) (int, error)\<close>: the popped value, the buffer as the
  call leaves it, and the error. A short buffer gives \<^verbatim>\<open>-1\<close> and leaves the
  buffer alone.
\<close>

definition packetPopInt :: "byte list \<Rightarrow> int \<times> byte list \<times> error option" where
  "packetPopInt buf =
     (if length buf < 4 then (-1, buf, Some BufferTooShort)
      else (uint (Uint32 buf), drop 4 buf, None))"

text \<open>
  The loop of \<^verbatim>\<open>recvInts\<close>: \<open>count\<close> pops appended to \<open>msgs\<close>, the first error
  returning \<^verbatim>\<open>nil\<close>.
\<close>

fun popInts :: "nat \<Rightarrow> byte list \<Rightarrow> int list \<Rightarrow> int list \<times> error option" where
  "popInts 0 packet msgs = (msgs, None)"
| "popInts (Suc count) packet msgs =
     (case packetPopInt packet of
        (m, packet1, Some e) \<Rightarrow> ([], Some e)
      | (m, packet1, None) \<Rightarrow> popInts count packet1 (msgs @ [m]))"

subsection \<open>Protocol constants and messages\<close>

definition muxVersion :: int where "muxVersion = 4"
definition muxMsgHello :: int where "muxMsgHello = 1"
definition muxNewSession :: int where "muxNewSession = 0x10000002"
definition muxAliveCheck :: int where "muxAliveCheck = 0x10000004"
definition muxIsAlive :: int where "muxIsAlive = 0x80000005"
definition muxSessionOpened :: int where "muxSessionOpened = 0x80000006"
definition muxTtyAllocFail :: int where "muxTtyAllocFail = 0x80000008"
definition muxExitMessage :: int where "muxExitMessage = 0x80000004"

record muxMsg =
  Request :: uint32
  Param :: uint32

record muxNewSessionMsg =
  nRequest :: uint32
  nRequestId :: uint32
  nReservedStr :: string
  nTtyFlags :: uint32
  nForwardX11 :: uint32
  nForwardAgent :: uint32
  nSubSystemFlag :: uint32
  nEscapeChar :: uint32
  nTerm :: string
  nCommand :: string

text \<open>
  Modelled from the spec: \<^verbatim>\<open>ssh.Marshal\<close> belongs to golang.org/x/crypto/ssh, not
  to the repository. It writes the fields of the struct in order, a \<^verbatim>\<open>uint32\<close>
  as four big-endian bytes and a string as its four-byte big-endian length followed
  by its bytes.
\<close>

definition marshal_string :: "string \<Rightarrow> byte list" where
  "marshal_string s = PutUint32 (word_of_nat (length s)) @ bytes_of s"

definition Marshal_muxMsg :: "muxMsg \<Rightarrow> byte list" where
  "Marshal_muxMsg m = PutUint32 (Request m) @ PutUint32 (Param m)"

definition Marshal_muxNewSessionMsg :: "muxNewSessionMsg \<Rightarrow> byte list" where
  "Marshal_muxNewSessionMsg m =
     PutUint32 (nRequest m) @ PutUint32 (nRequestId m) @ marshal_string (nReservedStr m) @
     PutUint32 (nTtyFlags m) @ PutUint32 (nForwardX11 m) @ PutUint32 (nForwardAgent m) @
     PutUint32 (nSubSystemFlag m) @ PutUint32 (nEscapeChar m) @
     marshal_string (nTerm m) @ marshal_string (nCommand m)"

subsection \<open>The session\<close>

text \<open>
  An \<^verbatim>\<open>io.Reader\<close> or \<^verbatim>\<open>io.Writer\<close> field: \<^verbatim>\<open>nil\<close>, an \<^verbatim>\<open>*os.File\<close> (the
  case the type switch of \<^verbatim>\<open>sshMuxPassFileDescriptors\<close> looks for),
  \<^verbatim>\<open>ioutil.Discard\<close>, or any other value.
\<close>

datatype stream = NoStream | OsFile osfile | Discard | OtherStream nat

text \<open>
  A channel: \<^verbatim>\<open>nil\<close>, or made with a capacity and holding the values sent and not
  yet received. A send on a \<^verbatim>\<open>nil\<close> channel blocks forever; a send on a full
  channel blocks until some receiver takes a value.
\<close>

datatype 'a chan = NilChan | Chan nat "'a list"

datatype 'a sent = Sent "'a chan" | BlocksForever | BlocksUntilReceived

fun send :: "'a chan \<Rightarrow> 'a \<Rightarrow> 'a sent" where
  "send NilChan v = BlocksForever"
| "send (Chan cap buf) v = (if length buf < cap then Sent (Chan cap (buf @ [v])) else BlocksUntilReceived)"

text \<open>What a call does: it returns a value, or it never gets past a channel operation.\<close>

datatype 'a call = Returned 'a | Blocked

text \<open>
  The process around the session: the results of the \<^verbatim>\<open>os.Pipe\<close> calls still to
  come (read end, write end; \<open>None\<close> is an error), the descriptors on which
  \<^verbatim>\<open>terminal.GetState\<close> and \<^verbatim>\<open>terminal.MakeRaw\<close> both succeed with equal
  states, the connections \<^verbatim>\<open>net.DialUnix\<close> gives, by path (no entry is an
  error), and the files closed so far.
\<close>

record os_env =
  pipes :: "(osfile \<times> osfile) option list"
  makeraw :: "osfile list"
  dial :: "(string \<times> conn) list"
  fclosed :: "osfile list"

datatype copyfn = CopyStdin | CopyStdout | CopyStderr

record session =
  Stdin :: stream
  Stdout :: stream
  Stderr :: stream
  lmuxStdin :: "osfile option"
  lmuxStdout :: "osfile option"
  lmuxStderr :: "osfile option"
  rmuxStdin :: "osfile option"
  rmuxStdout :: "osfile option"
  rmuxStderr :: "osfile option"
  copyFuncs :: "copyfn list"
  errors :: "error option chan"
  sshctlpath :: string
  ctrlconn :: "conn option"
  ctrlReqid :: int
  ctrlSessid :: int
  term_type :: string      \<comment> \<open>the field \<^verbatim>\<open>term\<close>\<close>
  started :: bool
  stdinpipe :: bool
  stdoutpipe :: bool
  stderrpipe :: bool
  stdinPipeWriter :: bool  \<comment> \<open>whether the field is non-nil\<close>
  exitStatus :: "error option chan"
  aborted :: "bool chan"
  env :: os_env

text \<open>\<^verbatim>\<open>NewSession(path)\<close>: \<^verbatim>\<open>&Session{sshctlpath: path}\<close>, every other field zero.\<close>

definition NewSession :: "os_env \<Rightarrow> string \<Rightarrow> session" where
  "NewSession e path =
     \<lparr>Stdin = NoStream, Stdout = NoStream, Stderr = NoStream,
      lmuxStdin = None, lmuxStdout = None, lmuxStderr = None,
      rmuxStdin = None, rmuxStdout = None, rmuxStderr = None,
      copyFuncs = [], errors = NilChan, sshctlpath = path, ctrlconn = None,
      ctrlReqid = 0, ctrlSessid = 0, term_type = [], started = False,
      stdinpipe = False, stdoutpipe = False, stderrpipe = False,
      stdinPipeWriter = False, exitStatus = NilChan, aborted = NilChan, env = e\<rparr>"

text \<open>
  Files and the connection are pointers in Go; closing one is recorded in the
  environment, or in the connection.
\<close>

definition file_Close :: "session \<Rightarrow> osfile \<Rightarrow> session" where
  "file_Close s f = s\<lparr>env := (env s)\<lparr>fclosed := fclosed (env s) @ [f]\<rparr>\<rparr>"

definition os_Pipe :: "session \<Rightarrow> session \<times> (osfile \<times> osfile) option" where
  "os_Pipe s =
     (case pipes (env s) of
        [] \<Rightarrow> (s, None)
      | p # ps \<Rightarrow> (s\<lparr>env := (env s)\<lparr>pipes := ps\<rparr>\<rparr>, p))"

definition ctrlconn_Close :: "session \<Rightarrow> session" where
  "ctrlconn_Close s =
     (case ctrlconn s of
        None \<Rightarrow> s
      | Some c \<Rightarrow> s\<lparr>ctrlconn := Some (c\<lparr>cclosed := True\<rparr>)\<rparr>)"

text \<open>\<^verbatim>\<open>fd.Put(s.ctrlconn, f)\<close>; its error is dropped by the caller.\<close>

definition fd_Put :: "session \<Rightarrow> osfile option \<Rightarrow> session" where
  "fd_Put s f =
     (case ctrlconn s of
        None \<Rightarrow> s
      | Some c \<Rightarrow> s\<lparr>ctrlconn := Some (c\<lparr>fds := fds c @ [f]\<rparr>)\<rparr>)"

text \<open>
  The methods of \<^verbatim>\<open>mux.go\<close> on the session. They run on the connection that
  \<^verbatim>\<open>openCtrlConn\<close> stored; on a \<^verbatim>\<open>nil\<close> connection, which no caller passes, the
  model lets the read and the write fail.
\<close>

definition readPacket :: "session \<Rightarrow> session \<times> byte list \<times> error option" where
  "readPacket s =
     (case ctrlconn s of
        None \<Rightarrow> (s, [], Some ReadError)
      | Some c \<Rightarrow> (case conn_readPacket c of (c1, packet, err) \<Rightarrow> (s\<lparr>ctrlconn := Some c1\<rparr>, packet, err)))"

definition writePacket :: "session \<Rightarrow> byte list \<Rightarrow> session \<times> error option" where
  "writePacket s req =
     (case ctrlconn s of
        None \<Rightarrow> (s, Some WriteError)
      | Some c \<Rightarrow> (case conn_writePacket c req of (c1, err) \<Rightarrow> (s\<lparr>ctrlconn := Some c1\<rparr>, err)))"

definition recvInts :: "session \<Rightarrow> nat \<Rightarrow> session \<times> int list \<times> error option" where
  "recvInts s count =
     (case readPacket s of
        (s1, packet, Some e) \<Rightarrow> (s1, [], Some e)
      | (s1, packet, None) \<Rightarrow>
          (case popInts count packet [] of (msgs, err) \<Rightarrow> (s1, msgs, err)))"

definition openCtrlConn :: "session \<Rightarrow> session \<times> error option" where
  "openCtrlConn s =
     (case map_of (dial (env s)) (sshctlpath s) of
        None \<Rightarrow> (s\<lparr>ctrlconn := None\<rparr>, Some DialError)
      | Some c \<Rightarrow> (s\<lparr>ctrlconn := Some c\<rparr>, None))"

subsection \<open>The handshake\<close>

definition sshMuxHello :: "session \<Rightarrow> session \<times> error option" where
  "sshMuxHello s =
     (case recvInts s 2 of
        (s1, msgs, Some e) \<Rightarrow> (s1, Some e)
      | (s1, msgs, None) \<Rightarrow>
          if msgs ! 0 \<noteq> muxMsgHello \<or> msgs ! 1 \<noteq> muxVersion then (s1, Some IncompatibleHello)
          else writePacket s1
                 (Marshal_muxMsg \<lparr>Request = word_of_int muxMsgHello, Param = word_of_int muxVersion\<rparr>))"

definition sshMuxAliveCheck :: "session \<Rightarrow> session \<times> error option" where
  "sshMuxAliveCheck s =
     (case writePacket s
             (Marshal_muxMsg \<lparr>Request = word_of_int muxAliveCheck, Param = word_of_int (ctrlReqid s)\<rparr>) of
        (s1, Some e) \<Rightarrow> (s1, Some e)
      | (s1, None) \<Rightarrow>
          (case recvInts s1 3 of
             (s2, msgs, Some e) \<Rightarrow> (s2, Some e)
           | (s2, msgs, None) \<Rightarrow>
               if msgs ! 0 \<noteq> muxIsAlive then (s2, Some (ExpectedAlive (msgs ! 0)))
               else if msgs ! 1 \<noteq> ctrlReqid s2 then (s2, Some (OutOfSequence (msgs ! 0)))
               else (s2\<lparr>ctrlReqid := ctrlReqid s2 + 1\<rparr>, None)))"

definition newSessionMsg :: "session \<Rightarrow> string \<Rightarrow> muxNewSessionMsg" where
  "newSessionMsg s cmd =
     \<lparr>nRequest = word_of_int muxNewSession,
      nRequestId = word_of_int (ctrlReqid s),
      nReservedStr = [],
      nTtyFlags = (if term_type s \<noteq> [] then 1 else 0),
      nForwardX11 = 0,
      nForwardAgent = 0,
      nSubSystemFlag = 0,
      nEscapeChar = 0xffffffff,
      nTerm = (if term_type s \<noteq> [] then term_type s else []),
      nCommand = cmd\<rparr>"

definition sshMuxNewSession :: "session \<Rightarrow> string \<Rightarrow> session \<times> error option" where
  "sshMuxNewSession s cmd = writePacket s (Marshal_muxNewSessionMsg (newSessionMsg s cmd))"

text \<open>
  The three descriptor blocks of \<^verbatim>\<open>sshMuxPassFileDescriptors\<close>: a user-supplied
  \<^verbatim>\<open>*os.File\<close> is used directly; otherwise, unless a pipe accessor made the pipe
  already, \<^verbatim>\<open>os.Pipe\<close> makes one (on its error both ends are \<^verbatim>\<open>nil\<close>).
\<close>

definition passStdin :: "session \<Rightarrow> session \<times> error option" where
  "passStdin s =
     (case Stdin s of
        OsFile sf \<Rightarrow> (s\<lparr>rmuxStdin := Some sf, stdinpipe := True\<rparr>, None)
      | _ \<Rightarrow>
          if lmuxStdin s = None then
            (case os_Pipe s of
               (s1, None) \<Rightarrow> (s1\<lparr>rmuxStdin := None, lmuxStdin := None\<rparr>, Some PipeError)
             | (s1, Some (r, w)) \<Rightarrow> (s1\<lparr>rmuxStdin := Some r, lmuxStdin := Some w\<rparr>, None))
          else (s, None))"

definition passStdout :: "session \<Rightarrow> session \<times> error option" where
  "passStdout s =
     (case Stdout s of
        OsFile sf \<Rightarrow> (s\<lparr>rmuxStdout := Some sf, stdoutpipe := True\<rparr>, None)
      | _ \<Rightarrow>
          if lmuxStdout s = None then
            (case os_Pipe s of
               (s1, None) \<Rightarrow> (s1\<lparr>lmuxStdout := None, rmuxStdout := None\<rparr>, Some PipeError)
             | (s1, Some (r, w)) \<Rightarrow> (s1\<lparr>lmuxStdout := Some r, rmuxStdout := Some w\<rparr>, None))
          else (s, None))"

definition passStderr :: "session \<Rightarrow> session \<times> error option" where
  "passStderr s =
     (case Stderr s of
        OsFile sf \<Rightarrow> (s\<lparr>rmuxStderr := Some sf, stderrpipe := True\<rparr>, None)
      | _ \<Rightarrow>
          if lmuxStderr s = None then
            (case os_Pipe s of
               (s1, None) \<Rightarrow> (s1\<lparr>lmuxStderr := None, rmuxStderr := None\<rparr>, Some PipeError)
             | (s1, Some (r, w)) \<Rightarrow> (s1\<lparr>lmuxStderr := Some r, rmuxStderr := Some w\<rparr>, None))
          else (s, None))"

definition sshMuxPassFileDescriptors :: "session \<Rightarrow> session \<times> error option" where
  "sshMuxPassFileDescriptors s =
     (case passStdin s of
        (s1, Some e) \<Rightarrow> (s1, Some e)
      | (s1, None) \<Rightarrow>
     (case passStdout s1 of
        (s2, Some e) \<Rightarrow> (s2, Some e)
      | (s2, None) \<Rightarrow>
     (case passStderr s2 of
        (s3, Some e) \<Rightarrow> (s3, Some e)
      | (s3, None) \<Rightarrow>
          (let s4 = fd_Put s3 (rmuxStdin s3);
               s5 = fd_Put s4 (rmuxStdout s4);
               s6 = fd_Put s5 (rmuxStderr s5)
           in case recvInts s6 3 of
                (s7, msgs, Some e) \<Rightarrow> (s7, Some e)
              | (s7, msgs, None) \<Rightarrow>
                  if msgs ! 0 \<noteq> muxSessionOpened then (s7, Some (ExpectedSessionOpened (msgs ! 0)))
                  else if msgs ! 1 \<noteq> ctrlReqid s7 then (s7, Some (OutOfSequence (msgs ! 0)))
                  else (s7\<lparr>ctrlSessid := msgs ! 2, ctrlReqid := ctrlReqid s7 + 1\<rparr>, None)))))"

text \<open>
  \<^verbatim>\<open>makeRawTerm\<close>: the terminal is outside the package, so the environment says
  on which descriptors \<^verbatim>\<open>GetState\<close> and \<^verbatim>\<open>MakeRaw\<close> succeed with equal
  states; a \<^verbatim>\<open>nil\<close> file has the invalid descriptor, on which they fail.
\<close>

definition makeRawTerm :: "session \<Rightarrow> error option" where
  "makeRawTerm s =
     (case rmuxStdin s of
        None \<Rightarrow> Some MakeRawError
      | Some f \<Rightarrow> if f \<in> set (makeraw (env s)) then None else Some MakeRawError)"

definition closeRemoteEnds :: "session \<Rightarrow> session" where
  "closeRemoteEnds s =
     (let s1 = (if lmuxStdin s \<noteq> None then (case rmuxStdin s of Some f \<Rightarrow> file_Close s f | None \<Rightarrow> s) else s);
          s2 = (if lmuxStdout s1 \<noteq> None then (case rmuxStdout s1 of Some f \<Rightarrow> file_Close s1 f | None \<Rightarrow> s1) else s1);
          s3 = (if lmuxStderr s2 \<noteq> None then (case rmuxStderr s2 of Some f \<Rightarrow> file_Close s2 f | None \<Rightarrow> s2) else s2)
      in s3)"

definition requestMuxSession :: "session \<Rightarrow> string \<Rightarrow> session \<times> error option" where
  "requestMuxSession s cmd =
     (case sshMuxHello (s\<lparr>ctrlReqid := 0\<rparr>) of
        (s1, Some e) \<Rightarrow> (s1, Some e)
      | (s1, None) \<Rightarrow>
     (case sshMuxAliveCheck s1 of
        (s2, Some e) \<Rightarrow> (s2, Some e)
      | (s2, None) \<Rightarrow>
     (case sshMuxNewSession s2 cmd of
        (s3, Some e) \<Rightarrow> (s3, Some e)
      | (s3, None) \<Rightarrow>
     (case sshMuxPassFileDescriptors s3 of
        (s4, Some e) \<Rightarrow> (s4, Some e)
      | (s4, None) \<Rightarrow>
          (case (if term_type s4 \<noteq> [] then makeRawTerm s4 else None) of
             Some e \<Rightarrow> (s4, Some e)
           | None \<Rightarrow> (closeRemoteEnds s4, None))))))"

subsection \<open>The exit-status reader\<close>

text \<open>\<^verbatim>\<open>%d\<close> of \<^verbatim>\<open>fmt.Sprintf\<close>.\<close>

fun dec :: "nat \<Rightarrow> string" where
  "dec n = (if n < 10 then [char_of (48 + n)] else dec (n div 10) @ [char_of (48 + n mod 10)])"

declare dec.simps [simp del]

definition fmt_d :: "int \<Rightarrow> string" where
  "fmt_d i = (if i < 0 then CHR ''-'' # dec (nat (- i)) else dec (nat i))"

definition unknown_session_id :: "int \<Rightarrow> int \<Rightarrow> string" where
  "unknown_session_id myid theirs =
     ''unknown session id: myid '' @ fmt_d myid @ '' theirs '' @ fmt_d theirs"

text \<open>
  One pass through the body of the \<^verbatim>\<open>for\<close> loop of \<^verbatim>\<open>wait\<close>, on the loop's
  variables \<^verbatim>\<open>wm\<close> and \<^verbatim>\<open>exit_seen\<close> (\<^verbatim>\<open>buf\<close>, \<^verbatim>\<open>err\<close>, \<^verbatim>\<open>mtype\<close> and
  \<^verbatim>\<open>sid\<close> are assigned before they are read in every pass). The two
  \<^verbatim>\<open>break\<close> statements before the \<^verbatim>\<open>switch\<close> leave the loop. A \<^verbatim>\<open>break\<close>
  inside a case of the \<^verbatim>\<open>switch\<close> is unlabelled, so in Go it ends the
  \<^verbatim>\<open>switch\<close> statement only and the loop goes on with the next pass. A failed
  \<^verbatim>\<open>wm.status, err = packetPopInt(&buf)\<close> still assigns the \<^verbatim>\<open>-1\<close> it returns.
\<close>

datatype pass = Break session Waitmsg bool | Continue session Waitmsg bool

definition wait_pass :: "session \<Rightarrow> Waitmsg \<Rightarrow> bool \<Rightarrow> pass" where
  "wait_pass s wm exit_seen =
     (case readPacket s of
        (s1, buf, Some e) \<Rightarrow> Break s1 wm exit_seen
      | (s1, buf, None) \<Rightarrow>
     (case packetPopInt buf of
        (mtype, buf1, Some e) \<Rightarrow> Break s1 wm exit_seen
      | (mtype, buf1, None) \<Rightarrow>
          if mtype = muxTtyAllocFail then
            (case packetPopInt buf1 of
               (sid, buf2, Some e) \<Rightarrow> Continue s1 wm exit_seen
             | (sid, buf2, None) \<Rightarrow>
                 if sid \<noteq> ctrlSessid s1
                 then Continue s1 (wm\<lparr>msg := unknown_session_id (ctrlSessid s1) sid\<rparr>) exit_seen
                 else Continue s1 wm exit_seen)
          else if mtype = muxExitMessage then
            (case packetPopInt buf1 of
               (sid, buf2, Some e) \<Rightarrow> Continue s1 wm exit_seen
             | (sid, buf2, None) \<Rightarrow>
                 if sid \<noteq> ctrlSessid s1
                 then Continue s1 (wm\<lparr>msg := unknown_session_id (ctrlSessid s1) sid\<rparr>) exit_seen
                 else if exit_seen
                 then Continue s1 (wm\<lparr>msg := ''exit seen twice''\<rparr>) exit_seen
                 else
                   (case packetPopInt buf2 of
                      (st, buf3, Some e) \<Rightarrow> Continue s1 (wm\<lparr>status := st\<rparr>) exit_seen
                    | (st, buf3, None) \<Rightarrow> Continue s1 (wm\<lparr>status := st\<rparr>) True))
          else Continue s1 wm exit_seen))"

text \<open>The bytes the connection of the session still delivers.\<close>

definition pending :: "session \<Rightarrow> nat" where
  "pending s = (case ctrlconn s of None \<Rightarrow> 0 | Some c \<Rightarrow> length (inq c))"

text \<open>
  The \<^verbatim>\<open>for\<close> loop. Every pass that goes on has read a packet, at least the
  four bytes of its length, so on a connection that delivers finitely many bytes
  before it ends the loop is left after finitely many passes.
\<close>

function wait_loop :: "session \<Rightarrow> Waitmsg \<Rightarrow> bool \<Rightarrow> session \<times> Waitmsg \<times> bool" where
  "wait_loop s wm exit_seen =
     (case wait_pass s wm exit_seen of
        Break s1 wm1 exit_seen1 \<Rightarrow> (s1, wm1, exit_seen1)
      | Continue s1 wm1 exit_seen1 \<Rightarrow> wait_loop s1 wm1 exit_seen1)"
  by pat_completeness auto
termination
proof (relation "measure (\<lambda>(s, wm, exit_seen). pending s)")
  show "wf (measure (\<lambda>(s, wm, exit_seen). pending s))"
    by simp
next
  fix s wm exit_seen s1 wm1 exit_seen1
  assume pass: "wait_pass s wm exit_seen = Continue s1 wm1 exit_seen1"
  then obtain buf where rd: "readPacket s = (s1, buf, None)"
    by (auto simp: wait_pass_def split: prod.splits option.splits if_splits)
  then obtain c c1 where c: "ctrlconn s = Some c" "ctrlconn s1 = Some c1"
      and crd: "conn_readPacket c = (c1, buf, None)"
    by (auto simp: readPacket_def split: option.splits prod.splits)
  from crd have "length (inq c1) < length (inq c)"
    by (auto simp: conn_readPacket_def ReadAtLeast_def Let_def split: if_splits)
  with c have "pending s1 < pending s"
    by (simp add: pending_def)
  then show "((s1, wm1, exit_seen1), (s, wm, exit_seen)) \<in> measure (\<lambda>(s, wm, exit_seen). pending s)"
    by simp
qed

declare wait_loop.simps [simp del]

definition wait :: "session \<Rightarrow> session \<times> error option" where
  "wait s =
     (case wait_loop s \<lparr>status = - 1, signal = [], msg = [], lang = []\<rparr> False of
        (s1, wm, exit_seen) \<Rightarrow>
          if status wm = 0 then (s1, None)
          else if status wm = - 1 then (s1, Some ExitMissingError)
          else (ctrlconn_Close s1, Some (ExitError wm)))"

subsection \<open>The Session API\<close>

text \<open>
  \<^verbatim>\<open>stdin\<close>, \<^verbatim>\<open>stdout\<close>, \<^verbatim>\<open>stderr\<close> and \<^verbatim>\<open>start\<close>. The copy tasks and the
  reader are goroutines: what \<^verbatim>\<open>Start\<close> and \<^verbatim>\<open>Shell\<close> themselves do is to record
  the tasks and make the channels, which is what the model keeps.
\<close>

definition stdin :: "session \<Rightarrow> session" where
  "stdin s =
     (if stdinpipe s then s
      else (let s1 = (if Stdin s = NoStream then s else s\<lparr>stdinPipeWriter := True\<rparr>)
            in s1\<lparr>copyFuncs := copyFuncs s1 @ [CopyStdin]\<rparr>))"

definition stdout :: "session \<Rightarrow> session" where
  "stdout s =
     (if stdoutpipe s then s
      else (let s1 = (if Stdout s = NoStream then s\<lparr>Stdout := Discard\<rparr> else s)
            in s1\<lparr>copyFuncs := copyFuncs s1 @ [CopyStdout]\<rparr>))"

definition stderr :: "session \<Rightarrow> session" where
  "stderr s =
     (if stderrpipe s then s
      else (let s1 = (if Stderr s = NoStream then s\<lparr>Stderr := Discard\<rparr> else s)
            in s1\<lparr>copyFuncs := copyFuncs s1 @ [CopyStderr]\<rparr>))"

definition start :: "session \<Rightarrow> session \<times> error option" where
  "start s =
     (let s1 = stderr (stdout (stdin (s\<lparr>started := True\<rparr>)))
      in (s1\<lparr>errors := Chan (length (copyFuncs s1)) []\<rparr>, None))"

definition Start :: "session \<Rightarrow> string \<Rightarrow> session \<times> error option" where
  "Start s cmd =
     (if started s then (s, Some AlreadyStarted)
      else
        (case openCtrlConn s of
           (s1, Some e) \<Rightarrow> (s1, Some e)
         | (s1, None) \<Rightarrow>
             (case requestMuxSession s1 cmd of
                (s2, Some e) \<Rightarrow> (s2, Some e)
              | (s2, None) \<Rightarrow> start (s2\<lparr>exitStatus := Chan 1 [], aborted := Chan 1 []\<rparr>))))"

definition Shell :: "session \<Rightarrow> session \<times> error option" where
  "Shell s =
     (if started s then (s, Some AlreadyStarted)
      else
        (case openCtrlConn s of
           (s1, Some e) \<Rightarrow> (s1, Some e)
         | (s1, None) \<Rightarrow>
             (case requestMuxSession s1 [] of
                (s2, Some e) \<Rightarrow> (s2, Some e)
              | (s2, None) \<Rightarrow> start (s2\<lparr>exitStatus := Chan 1 []\<rparr>))))"

text \<open>
  \<^verbatim>\<open>Close\<close>: the three guarded closes, then the send \<^verbatim>\<open>s.aborted <- true\<close>, then
  \<^verbatim>\<open>return nil\<close>. The call returns only when the send goes through.
\<close>

definition Close :: "session \<Rightarrow> session \<times> error option call" where
  "Close s =
     (let s1 = (if ctrlconn s \<noteq> None then ctrlconn_Close s else s);
          s2 = (case lmuxStderr s1 of Some f \<Rightarrow> file_Close s1 f | None \<Rightarrow> s1);
          s3 = (case lmuxStdout s2 of Some f \<Rightarrow> file_Close s2 f | None \<Rightarrow> s2)
      in case send (aborted s3) True of
           Sent ch \<Rightarrow> (s3\<lparr>aborted := ch\<rparr>, Returned None)
         | BlocksForever \<Rightarrow> (s3, Blocked)
         | BlocksUntilReceived \<Rightarrow> (s3, Blocked))"

definition RequestPty :: "session \<Rightarrow> string \<Rightarrow> session \<times> error option" where
  "RequestPty s t = (s\<lparr>term_type := t\<rparr>, None)"

subsection \<open>Notions of the specification and sample data\<close>

text \<open>
  The value a sequence of bytes denotes, most significant byte first: the reading
  of "big-endian" that the codec is compared with.
\<close>

definition big_endian_value :: "byte list \<Rightarrow> int" where
  "big_endian_value bs = foldl (\<lambda>v b. 256 * v + uint b) 0 bs"

text \<open>A packet on the wire: the four-byte length, then the payload.\<close>

definition frame :: "byte list \<Rightarrow> byte list" where
  "frame p = PutUint32 (word_of_nat (length p)) @ p"

text \<open>A fresh connection, an environment and a session on them, for concrete runs.\<close>

definition conn0 :: conn where
  "conn0 = \<lparr>inq = [], outq = [], fds = [], wbroken = False, cclosed = False\<rparr>"

definition env0 :: os_env where
  "env0 = \<lparr>pipes = [], makeraw = [], dial = [], fclosed = []\<rparr>"

definition session0 :: session where
  "session0 = (NewSession env0 ''/tmp/ctl'')\<lparr>ctrlconn := Some conn0\<rparr>"

text \<open>
  A session after a handshake that assigned the session id 7, on a connection that
  still delivers the given bytes, and the \<^verbatim>\<open>Waitmsg\<close> the reader starts with.
\<close>

definition reader_session :: "byte list \<Rightarrow> session" where
  "reader_session bs = session0\<lparr>ctrlSessid := 7, ctrlconn := Some (conn0\<lparr>inq := bs\<rparr>)\<rparr>"

definition wm0 :: Waitmsg where
  "wm0 = \<lparr>status = - 1, signal = [], msg = [], lang = []\<rparr>"

text \<open>The buffers handed to \<^verbatim>\<open>Write\<close> on the session's connection so far.\<close>

definition written :: "session \<Rightarrow> byte list list" where
  "written s = (case ctrlconn s of None \<Rightarrow> [] | Some c \<Rightarrow> outq c)"

text \<open>
  An environment in which \<^verbatim>\<open>os.Pipe\<close> succeeds three times and the control path
  leads to a master that sends the given bytes.
\<close>

definition env_with :: "byte list \<Rightarrow> os_env" where
  "env_with bs =
     \<lparr>pipes = [Some (3, 4), Some (5, 6), Some (7, 8)], makeraw = [],
      dial = [(''/tmp/ctl'', conn0\<lparr>inq := bs\<rparr>)], fclosed = []\<rparr>"

text \<open>
  What a master sends for a handshake: Hello with version 4, IsAlive echoing
  request id \<open>r1\<close> (pid 99), SessionOpened echoing request id \<open>r2\<close> (session id 7).
\<close>

definition master_replies :: "byte \<Rightarrow> byte \<Rightarrow> byte list" where
  "master_replies r1 r2 =
     [0, 0, 0, 8, 0, 0, 0, 1, 0, 0, 0, 4] @
     [0, 0, 0, 12, 0x80, 0, 0, 5, 0, 0, 0, r1, 0, 0, 0, 99] @
     [0, 0, 0, 12, 0x80, 0, 0, 6, 0, 0, 0, r2, 0, 0, 0, 7]"

text \<open>A session whose connection is open to such a master, before the handshake.\<close>

definition handshake_session :: "byte \<Rightarrow> byte \<Rightarrow> session" where
  "handshake_session r1 r2 =
     (NewSession (env_with []) ''/tmp/ctl'')\<lparr>ctrlconn := Some (conn0\<lparr>inq := master_replies r1 r2\<rparr>)\<rparr>"

text \<open>The bytes the session's connection has delivered to nobody yet.\<close>

definition unread :: "session \<Rightarrow> byte list" where
  "unread s = (case ctrlconn s of None \<Rightarrow> [] | Some c \<Rightarrow> inq c)"

section \<open>Properties\<close>

subsection \<open>Big-endian fields\<close>

lemma length_PutUint32 [simp]: "length (PutUint32 v) = 4"
  by (simp add: PutUint32_def)

lemma Uint32_PutUint32 [simp]: "Uint32 (PutUint32 v @ rest) = v"
  unfolding Uint32_def PutUint32_def
  apply (simp add: bit_eq_iff bit_simps)
  apply (intro allI impI iffI)
   apply (auto simp: bit_simps)[1]
  subgoal for n
    by (cases "n < 8"; cases "n < 16"; cases "n < 24"; simp; arith)
  done

lemma or_push_bit_int:
  fixes x y :: int
  assumes "0 \<le> x" "x < 2 ^ n"
  shows "x OR push_bit n y = x + push_bit n y"
  using assms by (metis concat_bit_def concat_bit_eq take_bit_int_eq_self_iff)

lemma uint_byte_or_push: "uint (x::byte) OR push_bit 8 (y::int) = uint x + 256 * y"
proof -
  have "uint x < 2 ^ 8"
    using uint_lt2p [of x] by simp
  then show ?thesis
    using or_push_bit_int [of "uint x" 8 y] by (simp add: push_bit_eq_mult)
qed

lemma uint_push_ucast:
  assumes "k \<le> 24"
  shows "uint (push_bit k (ucast (x::byte) :: uint32)) = push_bit k (uint x)"
proof -
  have "uint x < 2 ^ 8"
    using uint_lt2p [of x] by simp
  then have "push_bit k (uint x) < push_bit k (2 ^ 8)"
    by (simp add: push_bit_eq_mult)
  also have "\<dots> = 2 ^ (k + 8)"
    by (simp add: push_bit_eq_mult power_add)
  also have "\<dots> \<le> (2::int) ^ 32"
    using assms by (intro power_increasing) auto
  finally have small: "push_bit k (uint x) < 2 ^ 32" .
  have "uint (push_bit k (ucast x :: uint32)) = take_bit 32 (push_bit k (uint x))"
    by (simp add: unsigned_push_bit_eq uint_up_ucast is_up)
  also have "\<dots> = push_bit k (uint x)"
    using small by (simp add: take_bit_int_eq_self)
  finally show ?thesis .
qed

lemma uint_Uint32:
  "uint (Uint32 (a # b # c # d # rest)) = big_endian_value [a, b, c, d]"
proof -
  have "uint (Uint32 (a # b # c # d # rest)) =
        uint d OR push_bit 8 (uint c) OR push_bit 16 (uint b) OR push_bit 24 (uint a)"
    unfolding Uint32_def by (simp add: uint_or uint_up_ucast is_up uint_push_ucast)
  also have "\<dots> = uint d OR push_bit 8 (uint c OR push_bit 8 (uint b OR push_bit 8 (uint a)))"
    by (simp add: push_bit_or push_bit_push_bit)
  also have "\<dots> = uint d + 256 * (uint c + 256 * (uint b + 256 * uint a))"
    by (simp only: uint_byte_or_push)
  finally show ?thesis
    by (simp add: big_endian_value_def)
qed

lemma uint_Uint32_take:
  assumes "4 \<le> length buf"
  shows "uint (Uint32 buf) = big_endian_value (take 4 buf)"
proof -
  from assms obtain a b c d rest where "buf = a # b # c # d # rest"
    by (cases buf; simp; rename_tac b1 t1; case_tac t1; simp;
        rename_tac b2 t2; case_tac t2; simp; rename_tac b3 t3; case_tac t3; simp)
  then show ?thesis
    by (simp add: uint_Uint32)
qed

lemma big_endian_PutUint32: "big_endian_value (PutUint32 v) = uint v"
proof -
  have "big_endian_value (PutUint32 v) = uint (Uint32 (PutUint32 v @ []))"
    unfolding PutUint32_def by (simp add: uint_Uint32)
  then show ?thesis
    using Uint32_PutUint32 [of v "[]"] by simp
qed

lemma packetPopInt_PutUint32 [simp]:
  "packetPopInt (PutUint32 v @ rest) = (uint v, rest, None)"
  by (simp add: packetPopInt_def)

lemma popInts_eq:
  "popInts count buf msgs =
     (if length buf < 4 * count then ([], Some BufferTooShort)
      else (msgs @ map (\<lambda>i. big_endian_value (take 4 (drop (4 * i) buf))) [0..<count], None))"
proof (induction count arbitrary: buf msgs)
  case 0
  then show ?case by simp
next
  case (Suc count)
  show ?case
  proof (cases "length buf < 4")
    case True
    then show ?thesis
      by (simp add: packetPopInt_def)
  next
    case False
    have shift: "map (\<lambda>i. big_endian_value (take 4 (drop (4 * i) buf))) [0..<Suc count] =
          big_endian_value (take 4 buf) #
          map (\<lambda>i. big_endian_value (take 4 (drop (4 * i) (drop 4 buf)))) [0..<count]"
      by (simp add: upt_rec [of 0 "Suc count"] map_Suc_upt [symmetric] add.commute del: upt_Suc)
    from False have "packetPopInt buf = (big_endian_value (take 4 buf), drop 4 buf, None)"
      by (simp add: packetPopInt_def uint_Uint32_take)
    then show ?thesis
      using False by (simp add: Suc.IH shift del: upt_Suc) (auto)
  qed
qed

text \<open>
  C7. Popping a \<^verbatim>\<open>uint32\<close> field fails with the short-buffer error, returning
  \<^verbatim>\<open>-1\<close> and leaving the buffer as it is, whenever fewer than four bytes remain;
  otherwise it gives the big-endian value of the first four bytes and consumes
  exactly those four. Hence popping \<open>count\<close> fields, as \<^verbatim>\<open>recvInts\<close> does on the
  packet it has read, fails with the same error as soon as one of the fields has
  fewer than four bytes left, and otherwise gives the values of the \<open>count\<close>
  consecutive four-byte groups.
\<close>

theorem packetPopInt_short_buffer_or_big_endian:
  "packetPopInt buf =
     (if length buf < 4 then (- 1, buf, Some BufferTooShort)
      else (big_endian_value (take 4 buf), drop 4 buf, None)) \<and>
   popInts count buf [] =
     (if length buf < 4 * count then ([], Some BufferTooShort)
      else (map (\<lambda>i. big_endian_value (take 4 (drop (4 * i) buf))) [0..<count], None))"
  by (simp add: packetPopInt_def uint_Uint32_take popInts_eq)

subsection \<open>Packets\<close>

lemma length_frame [simp]: "length (frame p) = 4 + length p"
  by (simp add: frame_def)

lemma unat_length_word:
  assumes "length p < 2 ^ 32"
  shows "unat (word_of_nat (length p) :: uint32) = length p"
  using assms by (simp add: unat_of_nat)

lemma Uint32_PutUint32_only [simp]: "Uint32 (PutUint32 v) = v"
  using Uint32_PutUint32 [of v "[]"] by simp

lemma conn_readPacket_frame:
  assumes "inq c = frame p @ rest" and "length p < 2 ^ 32"
  shows "conn_readPacket c = (c\<lparr>inq := rest\<rparr>, p, None)"
  using assms
  by (simp add: conn_readPacket_def ReadAtLeast_def frame_def unat_length_word Let_def)

lemma conn_writePacket_frame:
  "conn_writePacket c p =
     (c\<lparr>outq := outq c @ [frame p]\<rparr>, if wbroken c then Some WriteError else None)"
  by (simp add: conn_writePacket_def Write_def frame_def)

lemma readPacket_frame:
  assumes "ctrlconn s = Some c" and "inq c = frame p @ rest" and "length p < 2 ^ 32"
  shows "readPacket s = (s\<lparr>ctrlconn := Some (c\<lparr>inq := rest\<rparr>)\<rparr>, p, None)"
  using assms by (simp add: readPacket_def conn_readPacket_frame)

lemma writePacket_frame:
  assumes "ctrlconn s = Some c"
  shows "writePacket s p =
           (s\<lparr>ctrlconn := Some (c\<lparr>outq := outq c @ [frame p]\<rparr>)\<rparr>,
            if wbroken c then Some WriteError else None)"
  using assms by (simp add: writePacket_def conn_writePacket_frame)

lemma big_endian_frame_length:
  assumes "length p < 2 ^ 32"
  shows "big_endian_value (take 4 (frame p)) = int (length p)"
proof -
  have "big_endian_value (take 4 (frame p)) = uint (word_of_nat (length p) :: uint32)"
    by (simp add: frame_def big_endian_PutUint32)
  also have "\<dots> = int (unat (word_of_nat (length p) :: uint32))"
    by simp
  also have "\<dots> = int (length p)"
    using assms by (simp only: unat_length_word)
  finally show ?thesis .
qed

text \<open>
  C8, as the code has it. The length field is \<^verbatim>\<open>uint32(len(req))\<close>, so the framing
  describes the payload only when the payload has fewer than \<open>2 ^ 32\<close> bytes. For
  such a payload \<open>p\<close>, \<^verbatim>\<open>writePacket\<close> makes one \<^verbatim>\<open>Write\<close> call, with the four
  bytes of the big-endian length of \<open>p\<close> followed by the bytes of \<open>p\<close>, and
  \<^verbatim>\<open>readPacket\<close> on a connection that delivers exactly the bytes written returns
  \<open>p\<close> and leaves nothing unread.
\<close>

theorem writePacket_readPacket_roundtrip:
  assumes "ctrlconn s = Some c" and "length p < 2 ^ 32"
  shows "\<exists>m. fst (writePacket s p) = s\<lparr>ctrlconn := Some (c\<lparr>outq := outq c @ [m]\<rparr>)\<rparr> \<and>
             length m = 4 + length p \<and>
             big_endian_value (take 4 m) = int (length p) \<and>
             drop 4 m = p \<and>
             readPacket (s\<lparr>ctrlconn := Some (c\<lparr>inq := m\<rparr>)\<rparr>) =
               (s\<lparr>ctrlconn := Some (c\<lparr>inq := []\<rparr>)\<rparr>, p, None)"
proof (intro exI conjI)
  show "fst (writePacket s p) = s\<lparr>ctrlconn := Some (c\<lparr>outq := outq c @ [frame p]\<rparr>)\<rparr>"
    using assms(1) by (simp add: writePacket_frame)
  show "length (frame p) = 4 + length p"
    by simp
  show "big_endian_value (take 4 (frame p)) = int (length p)"
    using assms(2) by (rule big_endian_frame_length)
  show "drop 4 (frame p) = p"
    by (simp add: frame_def)
  have "readPacket (s\<lparr>ctrlconn := Some (c\<lparr>inq := frame p\<rparr>)\<rparr>) =
        (s\<lparr>ctrlconn := Some (c\<lparr>inq := frame p\<rparr>)\<rparr>\<lparr>ctrlconn := Some (c\<lparr>inq := frame p\<rparr>\<lparr>inq := []\<rparr>)\<rparr>, p, None)"
    by (rule readPacket_frame [where rest = "[]"]) (use assms(2) in simp_all)
  then show "readPacket (s\<lparr>ctrlconn := Some (c\<lparr>inq := frame p\<rparr>)\<rparr>) =
        (s\<lparr>ctrlconn := Some (c\<lparr>inq := []\<rparr>)\<rparr>, p, None)"
    by simp
qed

theorem writePacket_readPacket_roundtrip_witness:
  "ctrlconn session0 = Some conn0 \<and> length [1, 2, 3 :: byte] < 2 ^ 32 \<and>
   fst (writePacket session0 [1, 2, 3]) =
     session0\<lparr>ctrlconn := Some (conn0\<lparr>outq := [[0, 0, 0, 3, 1, 2, 3]]\<rparr>)\<rparr> \<and>
   readPacket (session0\<lparr>ctrlconn := Some (conn0\<lparr>inq := [0, 0, 0, 3, 1, 2, 3]\<rparr>)\<rparr>) =
     (session0\<lparr>ctrlconn := Some (conn0\<lparr>inq := []\<rparr>)\<rparr>, [1, 2, 3], None)"
proof -
  have c: "ctrlconn session0 = Some conn0"
    by (simp add: session0_def NewSession_def)
  have l: "length [1, 2, 3 :: byte] < 2 ^ 32"
    by simp
  from writePacket_readPacket_roundtrip [OF c l]
  obtain m where m: "fst (writePacket session0 [1, 2, 3]) =
        session0\<lparr>ctrlconn := Some (conn0\<lparr>outq := outq conn0 @ [m]\<rparr>)\<rparr>"
      "length m = 4 + length [1, 2, 3 :: byte]"
      "drop 4 m = [1, 2, 3]"
      "readPacket (session0\<lparr>ctrlconn := Some (conn0\<lparr>inq := m\<rparr>)\<rparr>) =
        (session0\<lparr>ctrlconn := Some (conn0\<lparr>inq := []\<rparr>)\<rparr>, [1, 2, 3], None)"
    by blast
  have "fst (writePacket session0 [1, 2, 3]) =
        session0\<lparr>ctrlconn := Some (conn0\<lparr>outq := outq conn0 @ [[0, 0, 0, 3, 1, 2, 3]]\<rparr>)\<rparr>"
    using c by (simp add: writePacket_frame frame_def PutUint32_def)
  with m(1) have "m = [0, 0, 0, 3, 1, 2, 3]"
    by (simp add: session0_def NewSession_def conn0_def)
  with m c l show ?thesis
    by (simp add: conn0_def)
qed

text \<open>
  C8, as the spec states it, for every payload: a payload of \<open>2 ^ 32\<close> bytes is
  written behind the length field 0, and reading those bytes back gives the empty
  payload.
\<close>

theorem writePacket_readPacket_counterexample:
  "fst (snd (readPacket
      (session0\<lparr>ctrlconn := Some (conn0\<lparr>inq :=
         last (outq (the (ctrlconn (fst (writePacket session0 (replicate (2 ^ 32) 0))))))\<rparr>)\<rparr>)))
   \<noteq> replicate (2 ^ 32) 0"
proof -
  define p :: "byte list" where "p = replicate (2 ^ 32) 0"
  have len: "length p = 2 ^ 32"
    by (simp add: p_def)
  have c: "ctrlconn session0 = Some conn0"
    by (simp add: session0_def NewSession_def)
  have zero: "(word_of_nat (length p) :: uint32) = 0"
    by (simp add: len)
  have fr: "frame p = PutUint32 0 @ p"
    by (simp add: frame_def zero)
  have w: "last (outq (the (ctrlconn (fst (writePacket session0 p))))) = PutUint32 0 @ p"
    using c by (simp add: writePacket_frame fr)
  have "PutUint32 0 @ p = frame [] @ p"
    by (simp add: frame_def)
  then have "readPacket (session0\<lparr>ctrlconn := Some (conn0\<lparr>inq := PutUint32 0 @ p\<rparr>)\<rparr>) =
        (session0\<lparr>ctrlconn := Some (conn0\<lparr>inq := PutUint32 0 @ p\<rparr>)\<rparr>
           \<lparr>ctrlconn := Some (conn0\<lparr>inq := PutUint32 0 @ p\<rparr>\<lparr>inq := p\<rparr>)\<rparr>, [], None)"
    by (intro readPacket_frame) simp_all
  then have "fst (snd (readPacket (session0\<lparr>ctrlconn := Some (conn0\<lparr>inq := PutUint32 0 @ p\<rparr>)\<rparr>))) = []"
    by simp
  moreover have "p \<noteq> []"
    using len by auto
  ultimately show ?thesis
    unfolding p_def [symmetric] w by simp
qed

subsection \<open>The hello exchange\<close>

lemma popInts_two [simp]:
  "popInts 2 (PutUint32 a @ PutUint32 b @ extra) [] = ([uint a, uint b], None)"
  by (simp add: numeral_2_eq_2)

lemma popInts_three [simp]:
  "popInts 3 (PutUint32 a @ PutUint32 b @ PutUint32 d @ extra) [] = ([uint a, uint b, uint d], None)"
  by (simp add: numeral_3_eq_3)

lemma recvInts_frame:
  assumes "ctrlconn s = Some c" and "inq c = frame p @ rest" and "length p < 2 ^ 32"
  shows "recvInts s n =
           (case popInts n p [] of (msgs, err) \<Rightarrow> (s\<lparr>ctrlconn := Some (c\<lparr>inq := rest\<rparr>)\<rparr>, msgs, err))"
  using assms by (simp add: recvInts_def readPacket_frame split: prod.splits option.splits)

lemma uint_eq_numeral_iff:
  "uint (a :: uint32) = 1 \<longleftrightarrow> a = 1" "uint (b :: uint32) = 4 \<longleftrightarrow> b = 4"
  by (simp_all add: word_uint_eq_iff)

lemma hello_frame_bytes:
  "frame (Marshal_muxMsg \<lparr>Request = 1, Param = 4\<rparr>) = [0, 0, 0, 8, 0, 0, 0, 1, 0, 0, 0, 4]"
  by (simp add: frame_def Marshal_muxMsg_def PutUint32_def)

text \<open>
  C6. When the first packet on the connection starts with the two \<^verbatim>\<open>uint32\<close>
  fields \<open>a\<close> and \<open>b\<close>, \<^verbatim>\<open>sshMuxHello\<close> consumes that packet; unless \<open>a\<close> is the
  Hello type code 1 and \<open>b\<close> the protocol version 4 it fails with the
  incompatible-hello error and writes nothing; otherwise it writes one packet, whose
  payload is the same pair (Hello, 4), and returns the outcome of that write.
\<close>

theorem sshMuxHello_checks_and_replies:
  assumes "ctrlconn s = Some c"
    and "inq c = frame (PutUint32 a @ PutUint32 b @ extra) @ rest"
    and "length extra + 8 < 2 ^ 32"
  shows "sshMuxHello s =
           (if a = 1 \<and> b = 4
            then (s\<lparr>ctrlconn := Some (c\<lparr>inq := rest,
                      outq := outq c @ [[0, 0, 0, 8, 0, 0, 0, 1, 0, 0, 0, 4]]\<rparr>)\<rparr>,
                  if wbroken c then Some WriteError else None)
            else (s\<lparr>ctrlconn := Some (c\<lparr>inq := rest\<rparr>)\<rparr>, Some IncompatibleHello))"
proof -
  have len: "length (PutUint32 a @ PutUint32 b @ extra) < 2 ^ 32"
    using assms(3) by simp
  have rv: "recvInts s 2 = (s\<lparr>ctrlconn := Some (c\<lparr>inq := rest\<rparr>)\<rparr>, [uint a, uint b], None)"
    using recvInts_frame [OF assms(1) assms(2) len, of 2] by simp
  show ?thesis
  proof (cases "a = 1 \<and> b = 4")
    case True
    then show ?thesis
      by (simp add: sshMuxHello_def rv muxMsgHello_def muxVersion_def writePacket_frame
            hello_frame_bytes)
  next
    case False
    then show ?thesis
      by (auto simp: sshMuxHello_def rv muxMsgHello_def muxVersion_def uint_eq_numeral_iff)
  qed
qed

theorem sshMuxHello_checks_and_replies_witness:
  "sshMuxHello (session0\<lparr>ctrlconn := Some (conn0\<lparr>inq := [0, 0, 0, 8, 0, 0, 0, 1, 0, 0, 0, 4, 9]\<rparr>)\<rparr>) =
     (session0\<lparr>ctrlconn := Some (conn0\<lparr>inq := [9], outq := [[0, 0, 0, 8, 0, 0, 0, 1, 0, 0, 0, 4]]\<rparr>)\<rparr>, None) \<and>
   sshMuxHello (session0\<lparr>ctrlconn := Some (conn0\<lparr>inq := [0, 0, 0, 8, 0, 0, 0, 1, 0, 0, 0, 3, 9]\<rparr>)\<rparr>) =
     (session0\<lparr>ctrlconn := Some (conn0\<lparr>inq := [9]\<rparr>)\<rparr>, Some IncompatibleHello)"
proof -
  let ?c4 = "conn0\<lparr>inq := [0, 0, 0, 8, 0, 0, 0, 1, 0, 0, 0, 4, 9]\<rparr>"
  let ?c3 = "conn0\<lparr>inq := [0, 0, 0, 8, 0, 0, 0, 1, 0, 0, 0, 3, 9]\<rparr>"
  have "sshMuxHello (session0\<lparr>ctrlconn := Some ?c4\<rparr>) =
        (session0\<lparr>ctrlconn := Some ?c4\<rparr>\<lparr>ctrlconn := Some (?c4\<lparr>inq := [9],
             outq := outq ?c4 @ [[0, 0, 0, 8, 0, 0, 0, 1, 0, 0, 0, 4]]\<rparr>)\<rparr>,
         if wbroken ?c4 then Some WriteError else None)"
    using sshMuxHello_checks_and_replies [of "session0\<lparr>ctrlconn := Some ?c4\<rparr>" ?c4 1 4 "[]" "[9]"]
    by (simp add: frame_def PutUint32_def)
  moreover have "sshMuxHello (session0\<lparr>ctrlconn := Some ?c3\<rparr>) =
        (session0\<lparr>ctrlconn := Some ?c3\<rparr>\<lparr>ctrlconn := Some (?c3\<lparr>inq := [9]\<rparr>)\<rparr>, Some IncompatibleHello)"
    using sshMuxHello_checks_and_replies [of "session0\<lparr>ctrlconn := Some ?c3\<rparr>" ?c3 1 3 "[]" "[9]"]
    by (simp add: frame_def PutUint32_def)
  ultimately show ?thesis
    by (simp add: conn0_def)
qed

subsection \<open>The exit-status reader\<close>

lemma wait_pass_Continue_inv:
  assumes "wait_pass s wm seen = Continue s1 wm1 seen1"
  shows "signal wm1 = signal wm \<and> lang wm1 = lang wm \<and>
         ((\<not> seen \<longrightarrow> status wm = - 1) \<longrightarrow> (\<not> seen1 \<longrightarrow> status wm1 = - 1))"
  using assms
  by (auto simp: wait_pass_def packetPopInt_def split: prod.splits option.splits if_splits)

lemma wait_pass_Break_inv:
  assumes "wait_pass s wm seen = Break s1 wm1 seen1"
  shows "wm1 = wm \<and> seen1 = seen"
  using assms
  by (auto simp: wait_pass_def split: prod.splits option.splits if_splits)

lemma wait_loop_inv:
  assumes "wait_loop s wm seen = (s', wm', seen')"
  shows "signal wm' = signal wm \<and> lang wm' = lang wm \<and>
         ((\<not> seen \<longrightarrow> status wm = - 1) \<longrightarrow> (\<not> seen' \<longrightarrow> status wm' = - 1))"
  using assms
proof (induction s wm seen rule: wait_loop.induct)
  case (1 s wm seen)
  show ?case
  proof (cases "wait_pass s wm seen")
    case (Break s1 wm1 seen1)
    with "1.prems" have "wm' = wm1" "seen' = seen1"
      by (simp_all add: wait_loop.simps [of s wm seen])
    with wait_pass_Break_inv [OF Break] show ?thesis
      by simp
  next
    case (Continue s1 wm1 seen1)
    with "1.prems" have "wait_loop s1 wm1 seen1 = (s', wm', seen')"
      by (simp add: wait_loop.simps [of s wm seen])
    from "1.IH" [OF Continue this] wait_pass_Continue_inv [OF Continue]
    show ?thesis
      by simp
  qed
qed

lemma wait_loop_nothing_pending:
  assumes "pending s = 0"
  shows "snd (wait_loop s wm seen) = (wm, seen)"
proof -
  from assms have "\<exists>s1. readPacket s = (s1, [], Some ReadError)"
    by (auto simp: pending_def readPacket_def conn_readPacket_def ReadAtLeast_def
        split: option.splits)
  then obtain s1 where "wait_pass s wm seen = Break s1 wm seen"
    by (auto simp: wait_pass_def)
  then show ?thesis
    by (simp add: wait_loop.simps [of s wm seen])
qed

text \<open>
  C1. Whatever the connection delivers before it ends, the reader loop is left
  with some \<^verbatim>\<open>Waitmsg\<close> \<open>wm\<close>, and what \<^verbatim>\<open>wait\<close> hands to \<^verbatim>\<open>Wait\<close> is decided by
  its status alone: \<^verbatim>\<open>nil\<close> for status 0, the exit-status-missing error for status
  \<^verbatim>\<open>-1\<close>, and otherwise the remote-exit error that carries the whole of \<open>wm\<close>. When
  no exit notification was recorded (\<open>seen\<close> is false at the end), in particular
  when the connection ends before it delivers anything, the status is still
  \<^verbatim>\<open>-1\<close> and the outcome is the exit-status-missing error, never \<^verbatim>\<open>nil\<close>.
\<close>

theorem wait_outcome_decided_by_status:
  assumes "wait_loop s \<lparr>status = - 1, signal = [], msg = [], lang = []\<rparr> False = (s1, wm, seen)"
  shows "(status wm = 0 \<longrightarrow> wait s = (s1, None)) \<and>
         (status wm = - 1 \<longrightarrow> wait s = (s1, Some ExitMissingError)) \<and>
         (status wm \<noteq> 0 \<and> status wm \<noteq> - 1 \<longrightarrow> wait s = (ctrlconn_Close s1, Some (ExitError wm))) \<and>
         (\<not> seen \<longrightarrow> wait s = (s1, Some ExitMissingError)) \<and>
         (pending s = 0 \<longrightarrow> wait s = (s1, Some ExitMissingError))"
proof -
  have unseen: "\<not> seen \<longrightarrow> status wm = - 1"
    using wait_loop_inv [OF assms] by simp
  have "pending s = 0 \<longrightarrow> \<not> seen"
    using wait_loop_nothing_pending [of s "\<lparr>status = - 1, signal = [], msg = [], lang = []\<rparr>" False] assms
    by auto
  with unseen show ?thesis
    by (auto simp: wait_def assms)
qed

theorem wait_outcome_decided_by_status_witness:
  "wait (reader_session [0, 0, 0, 12, 0x80, 0, 0, 4, 0, 0, 0, 7, 0, 0, 0, 3]) =
     (ctrlconn_Close (reader_session []),
      Some (ExitError \<lparr>status = 3, signal = [], msg = [], lang = []\<rparr>)) \<and>
   wait (reader_session [0, 0, 0, 12, 0x80, 0, 0, 4, 0, 0, 0, 7, 0, 0, 0, 0]) =
     (reader_session [], None) \<and>
   wait (reader_session []) = (reader_session [], Some ExitMissingError)"
proof -
  let ?w = "\<lparr>status = - 1, signal = [], msg = [], lang = []\<rparr>"
  have l3: "wait_loop (reader_session [0, 0, 0, 12, 0x80, 0, 0, 4, 0, 0, 0, 7, 0, 0, 0, 3]) ?w False =
        (reader_session [], \<lparr>status = 3, signal = [], msg = [], lang = []\<rparr>, True)"
    by code_simp
  have l0: "wait_loop (reader_session [0, 0, 0, 12, 0x80, 0, 0, 4, 0, 0, 0, 7, 0, 0, 0, 0]) ?w False =
        (reader_session [], \<lparr>status = 0, signal = [], msg = [], lang = []\<rparr>, True)"
    by code_simp
  have lm: "wait_loop (reader_session []) ?w False = (reader_session [], ?w, False)"
    by code_simp
  show ?thesis
    using wait_outcome_decided_by_status [OF l3] wait_outcome_decided_by_status [OF l0]
      wait_outcome_decided_by_status [OF lm]
    by simp
qed

text \<open>
  C9. No pass of the reader assigns the \<^verbatim>\<open>signal\<close> or the \<^verbatim>\<open>lang\<close> field: in
  every remote-exit error that \<^verbatim>\<open>wait\<close> produces, and that is the only source of
  such errors for \<^verbatim>\<open>Wait\<close>, \<^verbatim>\<open>Signal()\<close> and \<^verbatim>\<open>Lang()\<close> are the empty string.
\<close>

theorem wait_never_sets_signal_or_lang:
  assumes "wait s = (s', Some (ExitError wm))"
  shows "Signal wm = [] \<and> Lang wm = []"
proof -
  let ?w = "\<lparr>status = - 1, signal = [], msg = [], lang = []\<rparr>"
  obtain s1 wm1 seen where loop: "wait_loop s ?w False = (s1, wm1, seen)"
    by (cases "wait_loop s ?w False") auto
  with assms have "wm = wm1"
    by (auto simp: wait_def split: if_splits)
  with wait_loop_inv [OF loop] show ?thesis
    by (simp add: Signal_def Lang_def)
qed

theorem wait_never_sets_signal_or_lang_witness:
  "wait (reader_session [0, 0, 0, 12, 0x80, 0, 0, 4, 0, 0, 0, 7, 0, 0, 0, 137]) =
     (ctrlconn_Close (reader_session []),
      Some (ExitError \<lparr>status = 137, signal = [], msg = [], lang = []\<rparr>)) \<and>
   Signal \<lparr>status = 137, signal = [], msg = [], lang = []\<rparr> = [] \<and>
   Lang \<lparr>status = 137, signal = [], msg = [], lang = []\<rparr> = []"
proof -
  have w: "wait (reader_session [0, 0, 0, 12, 0x80, 0, 0, 4, 0, 0, 0, 7, 0, 0, 0, 137]) =
     (ctrlconn_Close (reader_session []),
      Some (ExitError \<lparr>status = 137, signal = [], msg = [], lang = []\<rparr>))"
    by code_simp
  from wait_never_sets_signal_or_lang [OF w] w show ?thesis
    by simp
qed

text \<open>
  C3, as the spec states it, fails on the code. An ExitMessage with the session's
  id and no status recorded before does record the status, but the pass does not
  leave the loop: the reader goes on to the next packet, with \<^verbatim>\<open>exit_seen\<close> set.
\<close>

theorem wait_pass_exit_message_counterexample:
  "wait_pass (reader_session [0, 0, 0, 12, 0x80, 0, 0, 4, 0, 0, 0, 7, 0, 0, 0, 3]) wm0 False =
     Continue (reader_session []) (wm0\<lparr>status := 3\<rparr>) True"
  by code_simp

text \<open>
  C3, as the code has it. In one pass of the reader on a packet whose first two
  fields are a type code and the session's own id: an ExitMessage, with no status
  recorded before, has its third field recorded as the exit status, the exit marked
  as seen, and the reader continues with the next packet; a TtyAllocFail changes
  nothing and the reader continues with the next packet.
\<close>

theorem wait_pass_exit_and_tty_continue:
  assumes "ctrlconn s = Some c"
    and "inq c = frame (PutUint32 t @ PutUint32 sid @ body) @ rest"
    and "length body + 8 < 2 ^ 32"
    and "uint sid = ctrlSessid s"
  shows "(t = 0x80000004 \<and> body = PutUint32 st @ extra \<longrightarrow>
            wait_pass s wm False =
              Continue (s\<lparr>ctrlconn := Some (c\<lparr>inq := rest\<rparr>)\<rparr>) (wm\<lparr>status := uint st\<rparr>) True) \<and>
         (t = 0x80000008 \<longrightarrow>
            wait_pass s wm seen = Continue (s\<lparr>ctrlconn := Some (c\<lparr>inq := rest\<rparr>)\<rparr>) wm seen)"
proof -
  have len: "length (PutUint32 t @ PutUint32 sid @ body) < 2 ^ 32"
    using assms(3) by simp
  note rd = readPacket_frame [OF assms(1) assms(2) len]
  have sid: "ctrlSessid s = uint sid"
    using assms(4) by simp
  show ?thesis
    by (simp add: wait_pass_def rd sid muxExitMessage_def muxTtyAllocFail_def)
qed

theorem wait_pass_exit_and_tty_continue_witness:
  "wait_pass (reader_session [0, 0, 0, 12, 0x80, 0, 0, 4, 0, 0, 0, 7, 0, 0, 0, 5, 1]) wm0 False =
     Continue (reader_session [1]) (wm0\<lparr>status := 5\<rparr>) True \<and>
   wait_pass (reader_session [0, 0, 0, 8, 0x80, 0, 0, 8, 0, 0, 0, 7, 1]) wm0 True =
     Continue (reader_session [1]) wm0 True"
proof -
  let ?e = "[0, 0, 0, 12, 0x80, 0, 0, 4, 0, 0, 0, 7, 0, 0, 0, 5, 1] :: byte list"
  let ?t = "[0, 0, 0, 8, 0x80, 0, 0, 8, 0, 0, 0, 7, 1] :: byte list"
  have e: "wait_pass (reader_session ?e) wm0 False =
        Continue (reader_session ?e\<lparr>ctrlconn := Some (conn0\<lparr>inq := ?e\<rparr>\<lparr>inq := [1]\<rparr>)\<rparr>)
          (wm0\<lparr>status := uint (5 :: uint32)\<rparr>) True"
    using wait_pass_exit_and_tty_continue
      [of "reader_session ?e" "conn0\<lparr>inq := ?e\<rparr>" "0x80000004" 7 "PutUint32 5" "[1]" 5 "[]" wm0 False]
    by (simp add: reader_session_def session0_def NewSession_def frame_def PutUint32_def)
  have t: "wait_pass (reader_session ?t) wm0 True =
        Continue (reader_session ?t\<lparr>ctrlconn := Some (conn0\<lparr>inq := ?t\<rparr>\<lparr>inq := [1]\<rparr>)\<rparr>) wm0 True"
    using wait_pass_exit_and_tty_continue
      [of "reader_session ?t" "conn0\<lparr>inq := ?t\<rparr>" "0x80000008" 7 "[]" "[1]" 0 "[]" wm0 True]
    by (simp add: reader_session_def session0_def NewSession_def frame_def PutUint32_def)
  from e t show ?thesis
    by (simp add: reader_session_def)
qed

text \<open>
  A packet with any other type code is read past in the same way, and no error is
  kept: the \<^verbatim>\<open>break\<close> of the \<^verbatim>\<open>default\<close> case ends the \<^verbatim>\<open>switch\<close> only.
\<close>

lemma wait_pass_unknown_type_read_past:
  "wait_pass (reader_session [0, 0, 0, 4, 0, 0, 0, 0x42]) wm0 False =
     Continue (reader_session []) wm0 False"
  by code_simp

text \<open>
  C4 on the code. The reader of a session with id 7 receives an ExitMessage for
  session 9 with status 1 and then an ExitMessage for session 7 with status 0. The
  first pass records the unknown-session-id message in \<^verbatim>\<open>wm.msg\<close> and its
  \<^verbatim>\<open>break\<close> ends the \<^verbatim>\<open>switch\<close> only, so the reader goes on; the second packet is
  accepted and \<^verbatim>\<open>wait\<close> returns \<^verbatim>\<open>nil\<close>: the session has not failed.
\<close>

theorem wait_reads_past_session_id_mismatch:
  "wait_pass (reader_session ([0, 0, 0, 12, 0x80, 0, 0, 4, 0, 0, 0, 9, 0, 0, 0, 1] @
                              [0, 0, 0, 12, 0x80, 0, 0, 4, 0, 0, 0, 7, 0, 0, 0, 0])) wm0 False =
     Continue (reader_session [0, 0, 0, 12, 0x80, 0, 0, 4, 0, 0, 0, 7, 0, 0, 0, 0])
       (wm0\<lparr>msg := ''unknown session id: myid 7 theirs 9''\<rparr>) False \<and>
   wait (reader_session ([0, 0, 0, 12, 0x80, 0, 0, 4, 0, 0, 0, 9, 0, 0, 0, 1] @
                         [0, 0, 0, 12, 0x80, 0, 0, 4, 0, 0, 0, 7, 0, 0, 0, 0])) =
     (reader_session [], None)"
  by code_simp

subsection \<open>Request ids in the handshake\<close>

lemma readPacket_keeps:
  assumes "readPacket s = (s1, p, e)"
  shows "written s1 = written s \<and> ctrlReqid s1 = ctrlReqid s \<and> term_type s1 = term_type s \<and>
         (ctrlconn s1 = None) = (ctrlconn s = None)"
  using assms
  by (auto simp: readPacket_def conn_readPacket_def ReadAtLeast_def written_def Let_def
      split: option.splits prod.splits if_splits)

lemma recvInts_keeps:
  assumes "recvInts s n = (s1, msgs, e)"
  shows "written s1 = written s \<and> ctrlReqid s1 = ctrlReqid s \<and> term_type s1 = term_type s \<and>
         (ctrlconn s1 = None) = (ctrlconn s = None)"
proof -
  obtain s' p e' where rd: "readPacket s = (s', p, e')"
    by (cases "readPacket s") auto
  with assms have "s1 = s'"
    by (auto simp: recvInts_def split: option.splits prod.splits)
  with readPacket_keeps [OF rd] show ?thesis
    by simp
qed

lemma writePacket_writes:
  assumes "ctrlconn s \<noteq> None" and "writePacket s p = (s1, e)"
  shows "written s1 = written s @ [frame p] \<and> ctrlReqid s1 = ctrlReqid s \<and>
         term_type s1 = term_type s \<and> ctrlconn s1 \<noteq> None"
  using assms
  by (auto simp: writePacket_def conn_writePacket_frame written_def split: option.splits)

lemma sshMuxHello_writes:
  assumes "ctrlconn s \<noteq> None" and "sshMuxHello s = (s1, e)"
  shows "(written s1 = written s \<or>
          written s1 = written s @ [frame (Marshal_muxMsg \<lparr>Request = 1, Param = 4\<rparr>)]) \<and>
         (e = None \<longrightarrow> written s1 = written s @ [frame (Marshal_muxMsg \<lparr>Request = 1, Param = 4\<rparr>)]) \<and>
         ctrlReqid s1 = ctrlReqid s \<and> term_type s1 = term_type s \<and> ctrlconn s1 \<noteq> None"
proof -
  obtain s' msgs e' where rv: "recvInts s 2 = (s', msgs, e')"
    by (cases "recvInts s 2") auto
  note k = recvInts_keeps [OF rv]
  show ?thesis
  proof (cases "e' = None \<and> \<not> (msgs ! 0 \<noteq> muxMsgHello \<or> msgs ! 1 \<noteq> muxVersion)")
    case True
    with assms(2) rv have "writePacket s' (Marshal_muxMsg \<lparr>Request = 1, Param = 4\<rparr>) = (s1, e)"
      by (auto simp: sshMuxHello_def muxMsgHello_def muxVersion_def)
    from writePacket_writes [OF _ this] k assms(1) show ?thesis
      by auto
  next
    case False
    with assms(2) rv have "s1 = s'" "e \<noteq> None"
      by (auto simp: sshMuxHello_def split: option.splits if_splits)
    with k assms(1) show ?thesis
      by auto
  qed
qed

lemma sshMuxAliveCheck_writes:
  assumes "ctrlconn s \<noteq> None" and "sshMuxAliveCheck s = (s1, e)"
  shows "written s1 = written s @
           [frame (Marshal_muxMsg \<lparr>Request = 0x10000004, Param = word_of_int (ctrlReqid s)\<rparr>)] \<and>
         (e = None \<longrightarrow> ctrlReqid s1 = ctrlReqid s + 1) \<and>
         (e \<noteq> None \<longrightarrow> ctrlReqid s1 = ctrlReqid s) \<and>
         term_type s1 = term_type s \<and> ctrlconn s1 \<noteq> None"
proof -
  let ?req = "Marshal_muxMsg \<lparr>Request = 0x10000004, Param = word_of_int (ctrlReqid s)\<rparr>"
  obtain s' e' where wr: "writePacket s ?req = (s', e')"
    by (cases "writePacket s ?req") auto
  note w = writePacket_writes [OF assms(1) wr]
  show ?thesis
  proof (cases e')
    case (Some err)
    with assms(2) wr have "s1 = s'" "e \<noteq> None"
      by (auto simp: sshMuxAliveCheck_def muxAliveCheck_def)
    with w show ?thesis
      by auto
  next
    case None
    obtain s'' msgs e'' where rv: "recvInts s' 3 = (s'', msgs, e'')"
      by (cases "recvInts s' 3") auto
    note k = recvInts_keeps [OF rv]
    from assms(2) wr None rv
    have "(s1 = s'' \<and> e \<noteq> None) \<or> (s1 = s''\<lparr>ctrlReqid := ctrlReqid s'' + 1\<rparr> \<and> e = None)"
      by (auto simp: sshMuxAliveCheck_def muxAliveCheck_def split: option.splits if_splits)
    with w k show ?thesis
      by (auto simp: written_def)
  qed
qed

lemma sshMuxNewSession_writes:
  assumes "ctrlconn s \<noteq> None" and "sshMuxNewSession s cmd = (s1, e)"
  shows "written s1 = written s @ [frame (Marshal_muxNewSessionMsg (newSessionMsg s cmd))] \<and>
         ctrlReqid s1 = ctrlReqid s \<and> term_type s1 = term_type s \<and> ctrlconn s1 \<noteq> None"
  using writePacket_writes [OF assms(1)] assms(2)
  by (simp add: sshMuxNewSession_def)

lemma pass_keeps:
  "written (fst (passStdin s)) = written s \<and> ctrlReqid (fst (passStdin s)) = ctrlReqid s \<and>
   term_type (fst (passStdin s)) = term_type s \<and> ctrlconn (fst (passStdin s)) = ctrlconn s"
  "written (fst (passStdout s)) = written s \<and> ctrlReqid (fst (passStdout s)) = ctrlReqid s \<and>
   term_type (fst (passStdout s)) = term_type s \<and> ctrlconn (fst (passStdout s)) = ctrlconn s"
  "written (fst (passStderr s)) = written s \<and> ctrlReqid (fst (passStderr s)) = ctrlReqid s \<and>
   term_type (fst (passStderr s)) = term_type s \<and> ctrlconn (fst (passStderr s)) = ctrlconn s"
  by (auto simp: passStdin_def passStdout_def passStderr_def os_Pipe_def written_def
      split: stream.splits list.splits option.splits prod.splits)

lemma fd_Put_keeps:
  "written (fd_Put s f) = written s \<and> ctrlReqid (fd_Put s f) = ctrlReqid s \<and>
   term_type (fd_Put s f) = term_type s \<and> (ctrlconn (fd_Put s f) = None) = (ctrlconn s = None)"
  by (auto simp: fd_Put_def written_def split: option.splits)

lemma sshMuxPassFileDescriptors_keeps:
  assumes "sshMuxPassFileDescriptors s = (s1, e)"
  shows "written s1 = written s \<and> (e = None \<longrightarrow> ctrlReqid s1 = ctrlReqid s + 1) \<and>
         term_type s1 = term_type s \<and> (ctrlconn s1 = None) = (ctrlconn s = None)"
proof -
  obtain a ea where a: "passStdin s = (a, ea)" by (cases "passStdin s") auto
  obtain b eb where b: "passStdout a = (b, eb)" by (cases "passStdout a") auto
  obtain d ed where d: "passStderr b = (d, ed)" by (cases "passStderr b") auto
  let ?p = "fd_Put (fd_Put (fd_Put d (rmuxStdin d)) (rmuxStdout (fd_Put d (rmuxStdin d))))
              (rmuxStderr (fd_Put (fd_Put d (rmuxStdin d)) (rmuxStdout (fd_Put d (rmuxStdin d)))))"
  obtain r msgs er where r: "recvInts ?p 3 = (r, msgs, er)" by (cases "recvInts ?p 3") auto
  have ka: "written a = written s \<and> ctrlReqid a = ctrlReqid s \<and> term_type a = term_type s \<and>
            ctrlconn a = ctrlconn s"
    using pass_keeps(1) [of s] a by simp
  have kb: "written b = written a \<and> ctrlReqid b = ctrlReqid a \<and> term_type b = term_type a \<and>
            ctrlconn b = ctrlconn a"
    using pass_keeps(2) [of a] b by simp
  have kd: "written d = written b \<and> ctrlReqid d = ctrlReqid b \<and> term_type d = term_type b \<and>
            ctrlconn d = ctrlconn b"
    using pass_keeps(3) [of b] d by simp
  have kp: "written ?p = written d \<and> ctrlReqid ?p = ctrlReqid d \<and> term_type ?p = term_type d \<and>
            (ctrlconn ?p = None) = (ctrlconn d = None)"
    by (simp add: fd_Put_keeps)
  note kr = recvInts_keeps [OF r]
  from assms a b d r
  have "(s1 = a \<and> e \<noteq> None) \<or> (s1 = b \<and> e \<noteq> None) \<or> (s1 = d \<and> e \<noteq> None) \<or>
        (s1 = r \<and> e \<noteq> None) \<or>
        (s1 = r\<lparr>ctrlSessid := msgs ! 2, ctrlReqid := ctrlReqid r + 1\<rparr> \<and> e = None)"
    by (auto simp: sshMuxPassFileDescriptors_def Let_def split: option.splits if_splits)
  with ka kb kd kp kr show ?thesis
    by (auto simp: written_def)
qed

lemma closeRemoteEnds_keeps:
  "written (closeRemoteEnds s) = written s \<and> ctrlReqid (closeRemoteEnds s) = ctrlReqid s \<and>
   term_type (closeRemoteEnds s) = term_type s \<and> ctrlconn (closeRemoteEnds s) = ctrlconn s"
  by (auto simp: closeRemoteEnds_def file_Close_def written_def Let_def split: option.splits)

lemma newSessionMsg_cong:
  assumes "ctrlReqid a = ctrlReqid b" and "term_type a = term_type b"
  shows "newSessionMsg a cmd = newSessionMsg b cmd"
  using assms by (simp add: newSessionMsg_def)

lemma requestMuxSession_writes:
  assumes "ctrlconn s = Some c"
  shows "(\<exists>n. written (fst (requestMuxSession s cmd)) =
            outq c @ take n
              [frame (Marshal_muxMsg \<lparr>Request = 1, Param = 4\<rparr>),
               frame (Marshal_muxMsg \<lparr>Request = 0x10000004, Param = 0\<rparr>),
               frame (Marshal_muxNewSessionMsg (newSessionMsg (s\<lparr>ctrlReqid := 1\<rparr>) cmd))]) \<and>
         (snd (requestMuxSession s cmd) = None \<longrightarrow> ctrlReqid (fst (requestMuxSession s cmd)) = 2) \<and>
         (snd (requestMuxSession s cmd) = None \<or> ctrlReqid (fst (requestMuxSession s cmd)) \<noteq> 0 \<longrightarrow>
            written (fst (requestMuxSession s cmd)) =
              outq c @
              [frame (Marshal_muxMsg \<lparr>Request = 1, Param = 4\<rparr>),
               frame (Marshal_muxMsg \<lparr>Request = 0x10000004, Param = 0\<rparr>),
               frame (Marshal_muxNewSessionMsg (newSessionMsg (s\<lparr>ctrlReqid := 1\<rparr>) cmd))])"
proof -
  let ?H = "frame (Marshal_muxMsg \<lparr>Request = 1, Param = 4\<rparr>)"
  let ?A = "frame (Marshal_muxMsg \<lparr>Request = 0x10000004, Param = 0\<rparr>)"
  let ?N = "frame (Marshal_muxNewSessionMsg (newSessionMsg (s\<lparr>ctrlReqid := 1\<rparr>) cmd))"
  let ?s0 = "s\<lparr>ctrlReqid := 0\<rparr>"
  have c0: "ctrlconn ?s0 \<noteq> None" and w0: "written ?s0 = outq c"
    using assms by (simp_all add: written_def)
  obtain s1 e1 where h: "sshMuxHello ?s0 = (s1, e1)"
    by (cases "sshMuxHello ?s0") auto
  note k1 = sshMuxHello_writes [OF c0 h]
  from k1 have r1: "ctrlReqid s1 = 0"
    by simp
  show ?thesis
  proof (cases e1)
    case (Some err)
    then have res: "requestMuxSession s cmd = (s1, Some err)"
      by (simp add: requestMuxSession_def h)
    from k1 w0 have "written s1 = outq c @ take 0 [?H, ?A, ?N] \<or>
                     written s1 = outq c @ take 1 [?H, ?A, ?N]"
      by auto
    then have "\<exists>n. written s1 = outq c @ take n [?H, ?A, ?N]"
      by blast
    then show ?thesis
      unfolding res fst_conv snd_conv using r1 by simp
  next
    case None
    with k1 w0 have w1: "written s1 = outq c @ [?H]"
      and t1: "term_type s1 = term_type s" and c1: "ctrlconn s1 \<noteq> None"
      by auto
    obtain s2 e2 where a: "sshMuxAliveCheck s1 = (s2, e2)"
      by (cases "sshMuxAliveCheck s1") auto
    from sshMuxAliveCheck_writes [OF c1 a] w1 r1 t1
    have w2: "written s2 = outq c @ [?H, ?A]" and r2: "e2 = None \<longrightarrow> ctrlReqid s2 = 1"
      and r2n: "e2 \<noteq> None \<longrightarrow> ctrlReqid s2 = 0"
      and t2: "term_type s2 = term_type s" and c2: "ctrlconn s2 \<noteq> None"
      by auto
    show ?thesis
    proof (cases e2)
      case (Some err)
      then have res: "requestMuxSession s cmd = (s2, Some err)"
        by (simp add: requestMuxSession_def h None a)
      from w2 have "written s2 = outq c @ take 2 [?H, ?A, ?N]"
        by simp
      then have "\<exists>n. written s2 = outq c @ take n [?H, ?A, ?N]"
        by blast
      then show ?thesis
        unfolding res fst_conv snd_conv using r2n Some by simp
    next
      case e2: None
      with r2 have r2': "ctrlReqid s2 = 1"
        by simp
      obtain s3 e3 where n: "sshMuxNewSession s2 cmd = (s3, e3)"
        by (cases "sshMuxNewSession s2 cmd") auto
      have msg: "newSessionMsg s2 cmd = newSessionMsg (s\<lparr>ctrlReqid := 1\<rparr>) cmd"
        by (rule newSessionMsg_cong) (simp_all add: r2' t2)
      from sshMuxNewSession_writes [OF c2 n] w2 r2' t2 msg
      have w3: "written s3 = outq c @ [?H, ?A, ?N]" and r3: "ctrlReqid s3 = 1"
        by auto
      show ?thesis
      proof (cases e3)
        case (Some err)
        then have res: "requestMuxSession s cmd = (s3, Some err)"
          by (simp add: requestMuxSession_def h None a e2 n)
        from w3 have "written s3 = outq c @ take 3 [?H, ?A, ?N]"
          by simp
        then have "\<exists>n. written s3 = outq c @ take n [?H, ?A, ?N]"
          by blast
        then show ?thesis
          unfolding res fst_conv snd_conv using w3 by simp
      next
        case e3: None
        obtain s4 e4 where p: "sshMuxPassFileDescriptors s3 = (s4, e4)"
          by (cases "sshMuxPassFileDescriptors s3") auto
        from sshMuxPassFileDescriptors_keeps [OF p] w3 r3
        have w4: "written s4 = outq c @ [?H, ?A, ?N]" and r4: "e4 = None \<longrightarrow> ctrlReqid s4 = 2"
          by auto
        from w4 have "written s4 = outq c @ take 3 [?H, ?A, ?N]"
          by simp
        then have ex4: "\<exists>n. written s4 = outq c @ take n [?H, ?A, ?N]"
          by blast
        have w5: "written (closeRemoteEnds s4) = outq c @ [?H, ?A, ?N]"
          using w4 by (simp only: closeRemoteEnds_keeps)
        from ex4 have ex5: "\<exists>n. written (closeRemoteEnds s4) = outq c @ take n [?H, ?A, ?N]"
          by (simp only: closeRemoteEnds_keeps)
        have "(requestMuxSession s cmd = (s4, e4) \<and> e4 \<noteq> None) \<or>
              (requestMuxSession s cmd = (s4, Some MakeRawError)) \<or>
              (requestMuxSession s cmd = (closeRemoteEnds s4, None) \<and> e4 = None)"
          by (auto simp: requestMuxSession_def h None a e2 n e3 p makeRawTerm_def
              split: option.splits)
        then show ?thesis
        proof (elim disjE conjE)
          assume "requestMuxSession s cmd = (s4, e4)" "e4 \<noteq> None"
          with ex4 w4 show ?thesis
            by auto
        next
          assume "requestMuxSession s cmd = (s4, Some MakeRawError)"
          with ex4 w4 show ?thesis
            by simp
        next
          assume "requestMuxSession s cmd = (closeRemoteEnds s4, None)" "e4 = None"
          with ex5 w5 r4 show ?thesis
            by (simp add: closeRemoteEnds_keeps)
        qed
      qed
    qed
  qed
qed

lemma popInts_exact [simp]:
  "popInts 2 (PutUint32 a @ PutUint32 b) [] = ([uint a, uint b], None)"
  "popInts 3 (PutUint32 a @ PutUint32 b @ PutUint32 d) [] = ([uint a, uint b, uint d], None)"
  using popInts_two [of a b "[]"] popInts_three [of a b d "[]"] by simp_all

lemma sshMuxHello_accepts:
  assumes "ctrlconn s = Some c" and "\<not> wbroken c"
    and "inq c = frame (PutUint32 1 @ PutUint32 4) @ rest"
  shows "sshMuxHello s =
           (s\<lparr>ctrlconn := Some (c\<lparr>inq := rest,
                outq := outq c @ [frame (Marshal_muxMsg \<lparr>Request = 1, Param = 4\<rparr>)]\<rparr>)\<rparr>, None)"
proof -
  have "inq c = frame (PutUint32 1 @ PutUint32 4 @ []) @ rest"
    using assms(3) by simp
  from recvInts_frame [OF assms(1) this, of 2]
  have rv: "recvInts s 2 = (s\<lparr>ctrlconn := Some (c\<lparr>inq := rest\<rparr>)\<rparr>, [1, 4], None)"
    by simp
  show ?thesis
    using assms(2)
    by (simp add: sshMuxHello_def rv muxMsgHello_def muxVersion_def writePacket_frame)
qed

lemma sshMuxAliveCheck_reply:
  assumes "ctrlconn s = Some c" and "\<not> wbroken c"
    and "inq c = frame (PutUint32 0x80000005 @ PutUint32 r @ PutUint32 pid) @ rest"
  shows "sshMuxAliveCheck s =
           (if uint r = ctrlReqid s
            then (s\<lparr>ctrlconn := Some (c\<lparr>outq := outq c @
                      [frame (Marshal_muxMsg \<lparr>Request = 0x10000004, Param = word_of_int (ctrlReqid s)\<rparr>)],
                      inq := rest\<rparr>),
                    ctrlReqid := ctrlReqid s + 1\<rparr>, None)
            else (s\<lparr>ctrlconn := Some (c\<lparr>outq := outq c @
                      [frame (Marshal_muxMsg \<lparr>Request = 0x10000004, Param = word_of_int (ctrlReqid s)\<rparr>)],
                      inq := rest\<rparr>)\<rparr>, Some (OutOfSequence muxIsAlive)))"
proof -
  let ?req = "Marshal_muxMsg \<lparr>Request = 0x10000004, Param = word_of_int (ctrlReqid s)\<rparr>"
  let ?c1 = "c\<lparr>outq := outq c @ [frame ?req]\<rparr>"
  let ?s1 = "s\<lparr>ctrlconn := Some ?c1\<rparr>"
  have wr: "writePacket s ?req = (?s1, None)"
    using assms(1,2) by (simp add: writePacket_frame)
  have "inq ?c1 = frame (PutUint32 0x80000005 @ PutUint32 r @ PutUint32 pid @ []) @ rest"
    using assms(3) by simp
  from recvInts_frame [OF _ this, of ?s1 3]
  have rv: "recvInts ?s1 3 =
        (?s1\<lparr>ctrlconn := Some (?c1\<lparr>inq := rest\<rparr>)\<rparr>, [uint (0x80000005 :: uint32), uint r, uint pid], None)"
    by simp
  show ?thesis
    by (simp add: sshMuxAliveCheck_def muxAliveCheck_def wr rv muxIsAlive_def)
qed

lemma pass_error:
  "snd (passStdin s) = None \<or> snd (passStdin s) = Some PipeError"
  "snd (passStdout s) = None \<or> snd (passStdout s) = Some PipeError"
  "snd (passStderr s) = None \<or> snd (passStderr s) = Some PipeError"
  by (auto simp: passStdin_def passStdout_def passStderr_def os_Pipe_def
      split: stream.splits list.splits option.splits prod.splits)

lemma fd_Put_conn:
  assumes "ctrlconn s = Some c"
  shows "ctrlconn (fd_Put s f) = Some (c\<lparr>fds := fds c @ [f]\<rparr>) \<and> ctrlReqid (fd_Put s f) = ctrlReqid s"
  using assms by (simp add: fd_Put_def)

lemma sshMuxPassFileDescriptors_mismatch:
  assumes "ctrlconn s = Some c"
    and "inq c = frame (PutUint32 0x80000006 @ PutUint32 r @ PutUint32 sid) @ rest"
    and "uint r \<noteq> ctrlReqid s"
  shows "(snd (sshMuxPassFileDescriptors s) = Some (OutOfSequence muxSessionOpened) \<and>
          unread (fst (sshMuxPassFileDescriptors s)) = rest) \<or>
         (snd (sshMuxPassFileDescriptors s) = Some PipeError \<and>
          unread (fst (sshMuxPassFileDescriptors s)) = inq c)"
proof -
  obtain a ea where a: "passStdin s = (a, ea)" by (cases "passStdin s") auto
  obtain b eb where b: "passStdout a = (b, eb)" by (cases "passStdout a") auto
  obtain d ed where d: "passStderr b = (d, ed)" by (cases "passStderr b") auto
  have ea: "ea = None \<or> ea = Some PipeError"
    using pass_error(1) [of s] a by simp
  have eb: "eb = None \<or> eb = Some PipeError"
    using pass_error(2) [of a] b by simp
  have ed: "ed = None \<or> ed = Some PipeError"
    using pass_error(3) [of b] d by simp
  have ca: "ctrlconn a = Some c" and cb: "ctrlconn b = Some c" and cd: "ctrlconn d = Some c"
    and rd: "ctrlReqid d = ctrlReqid s"
    using pass_keeps(1) [of s] pass_keeps(2) [of a] pass_keeps(3) [of b] a b d assms(1)
    by simp_all
  show ?thesis
  proof (cases "ea = None \<and> eb = None \<and> ed = None")
    case False
    with ea eb ed a b d ca cb cd show ?thesis
      by (auto simp: sshMuxPassFileDescriptors_def unread_def)
  next
    case True
    let ?p1 = "fd_Put d (rmuxStdin d)"
    let ?p2 = "fd_Put ?p1 (rmuxStdout ?p1)"
    let ?p3 = "fd_Put ?p2 (rmuxStderr ?p2)"
    let ?c3 = "c\<lparr>fds := fds c @ [rmuxStdin d]\<rparr>\<lparr>fds := fds (c\<lparr>fds := fds c @ [rmuxStdin d]\<rparr>) @ [rmuxStdout ?p1]\<rparr>"
    let ?c4 = "?c3\<lparr>fds := fds ?c3 @ [rmuxStderr ?p2]\<rparr>"
    have c1: "ctrlconn ?p1 = Some (c\<lparr>fds := fds c @ [rmuxStdin d]\<rparr>)" and r1: "ctrlReqid ?p1 = ctrlReqid s"
      using fd_Put_conn [OF cd, of "rmuxStdin d"] rd by simp_all
    have c2: "ctrlconn ?p2 = Some ?c3" and r2: "ctrlReqid ?p2 = ctrlReqid s"
      using fd_Put_conn [OF c1, of "rmuxStdout ?p1"] r1 by simp_all
    have c3: "ctrlconn ?p3 = Some ?c4" and r3: "ctrlReqid ?p3 = ctrlReqid s"
      using fd_Put_conn [OF c2, of "rmuxStderr ?p2"] r2 by simp_all
    have "inq ?c4 = frame (PutUint32 0x80000006 @ PutUint32 r @ PutUint32 sid @ []) @ rest"
      using assms(2) by simp
    from recvInts_frame [OF c3 this, of 3]
    have rv: "recvInts ?p3 3 =
          (?p3\<lparr>ctrlconn := Some (?c4\<lparr>inq := rest\<rparr>)\<rparr>, [uint (0x80000006 :: uint32), uint r, uint sid], None)"
      by simp
    show ?thesis
      using True assms(3) r3
      by (simp add: sshMuxPassFileDescriptors_def a b d Let_def rv muxSessionOpened_def unread_def)
  qed
qed

text \<open>
  C5. \<^verbatim>\<open>requestMuxSession\<close> sets the request counter to 0. Whatever the master
  sends, the packets the handshake writes are an initial part of: the Hello reply,
  the AliveCheck request with request id 0, the NewSession request with request id
  1; when the handshake succeeds, and already when the counter has left 0, they are
  exactly these three, and after success the counter is 2. When the master answers
  the AliveCheck with an IsAlive that echoes a request id other than 0, the
  handshake returns the out-of-sequence error with exactly the Hello reply and the
  AliveCheck written and with everything behind the IsAlive packet unread. When,
  after a correct IsAlive, the master answers with a SessionOpened that echoes a
  request id other than 1, all three packets have been written and the handshake
  returns the out-of-sequence error with everything behind the SessionOpened packet
  unread, or, when an \<^verbatim>\<open>os.Pipe\<close> fails first, the pipe error with the
  SessionOpened packet unread. In both cases it returns: it does not go on, and it
  does not wait for more.
\<close>

theorem handshake_request_ids:
  assumes "ctrlconn s = Some c"
  shows "(\<exists>n. written (fst (requestMuxSession s cmd)) =
            outq c @ take n
              [frame (Marshal_muxMsg \<lparr>Request = 1, Param = 4\<rparr>),
               frame (Marshal_muxMsg \<lparr>Request = 0x10000004, Param = 0\<rparr>),
               frame (Marshal_muxNewSessionMsg (newSessionMsg (s\<lparr>ctrlReqid := 1\<rparr>) cmd))]) \<and>
         nRequestId (newSessionMsg (s\<lparr>ctrlReqid := 1\<rparr>) cmd) = 1 \<and>
         (snd (requestMuxSession s cmd) = None \<longrightarrow> ctrlReqid (fst (requestMuxSession s cmd)) = 2) \<and>
         (snd (requestMuxSession s cmd) = None \<or> ctrlReqid (fst (requestMuxSession s cmd)) \<noteq> 0 \<longrightarrow>
            written (fst (requestMuxSession s cmd)) =
              outq c @
              [frame (Marshal_muxMsg \<lparr>Request = 1, Param = 4\<rparr>),
               frame (Marshal_muxMsg \<lparr>Request = 0x10000004, Param = 0\<rparr>),
               frame (Marshal_muxNewSessionMsg (newSessionMsg (s\<lparr>ctrlReqid := 1\<rparr>) cmd))]) \<and>
         (\<not> wbroken c \<and> r \<noteq> 0 \<and>
          inq c = frame (PutUint32 1 @ PutUint32 4) @
                  frame (PutUint32 0x80000005 @ PutUint32 r @ PutUint32 pid) @ rest \<longrightarrow>
            snd (requestMuxSession s cmd) = Some (OutOfSequence muxIsAlive) \<and>
            written (fst (requestMuxSession s cmd)) =
              outq c @
              [frame (Marshal_muxMsg \<lparr>Request = 1, Param = 4\<rparr>),
               frame (Marshal_muxMsg \<lparr>Request = 0x10000004, Param = 0\<rparr>)] \<and>
            unread (fst (requestMuxSession s cmd)) = rest) \<and>
         (\<not> wbroken c \<and> r \<noteq> 1 \<and>
          inq c = frame (PutUint32 1 @ PutUint32 4) @
                  frame (PutUint32 0x80000005 @ PutUint32 0 @ PutUint32 pid) @
                  frame (PutUint32 0x80000006 @ PutUint32 r @ PutUint32 sid) @ rest \<longrightarrow>
            written (fst (requestMuxSession s cmd)) =
              outq c @
              [frame (Marshal_muxMsg \<lparr>Request = 1, Param = 4\<rparr>),
               frame (Marshal_muxMsg \<lparr>Request = 0x10000004, Param = 0\<rparr>),
               frame (Marshal_muxNewSessionMsg (newSessionMsg (s\<lparr>ctrlReqid := 1\<rparr>) cmd))] \<and>
            (snd (requestMuxSession s cmd) = Some (OutOfSequence muxSessionOpened) \<and>
             unread (fst (requestMuxSession s cmd)) = rest \<or>
             snd (requestMuxSession s cmd) = Some PipeError \<and>
             unread (fst (requestMuxSession s cmd)) =
               frame (PutUint32 0x80000006 @ PutUint32 r @ PutUint32 sid) @ rest))"
proof -
  let ?R = "requestMuxSession s cmd"
  let ?H = "frame (Marshal_muxMsg \<lparr>Request = 1, Param = 4\<rparr>)"
  let ?A = "frame (Marshal_muxMsg \<lparr>Request = 0x10000004, Param = 0\<rparr>)"
  let ?N = "frame (Marshal_muxNewSessionMsg (newSessionMsg (s\<lparr>ctrlReqid := 1\<rparr>) cmd))"
  let ?s0 = "s\<lparr>ctrlReqid := 0\<rparr>"
  have c0: "ctrlconn ?s0 = Some c"
    using assms by simp
  note general = requestMuxSession_writes [OF assms, of cmd]
  have p1: "\<exists>n. written (fst ?R) = outq c @ take n [?H, ?A, ?N]"
    using general by blast
  have p2: "nRequestId (newSessionMsg (s\<lparr>ctrlReqid := 1\<rparr>) cmd) = 1"
    by (simp add: newSessionMsg_def)
  have p3: "snd ?R = None \<longrightarrow> ctrlReqid (fst ?R) = 2"
    using general by blast
  have p4: "snd ?R = None \<or> ctrlReqid (fst ?R) \<noteq> 0 \<longrightarrow> written (fst ?R) = outq c @ [?H, ?A, ?N]"
    using general by blast
  have p5: "snd ?R = Some (OutOfSequence muxIsAlive) \<and> written (fst ?R) = outq c @ [?H, ?A] \<and>
            unread (fst ?R) = rest"
    if hyp: "\<not> wbroken c \<and> r \<noteq> 0 \<and>
          inq c = frame (PutUint32 1 @ PutUint32 4) @
                  frame (PutUint32 0x80000005 @ PutUint32 r @ PutUint32 pid) @ rest"
  proof -
    from hyp have nb: "\<not> wbroken c" and r: "r \<noteq> 0"
      and inq: "inq c = frame (PutUint32 1 @ PutUint32 4) @
                  (frame (PutUint32 0x80000005 @ PutUint32 r @ PutUint32 pid) @ rest)"
      by simp_all
    let ?c1 = "c\<lparr>inq := frame (PutUint32 0x80000005 @ PutUint32 r @ PutUint32 pid) @ rest,
                 outq := outq c @ [?H]\<rparr>"
    let ?s1 = "?s0\<lparr>ctrlconn := Some ?c1\<rparr>"
    let ?c2 = "?c1\<lparr>outq := outq ?c1 @ [?A], inq := rest\<rparr>"
    let ?s2 = "?s1\<lparr>ctrlconn := Some ?c2\<rparr>"
    have h: "sshMuxHello ?s0 = (?s1, None)"
      by (rule sshMuxHello_accepts [OF c0 nb inq])
    have "uint r \<noteq> 0"
      using r by (simp add: uint_0_iff)
    then have a: "sshMuxAliveCheck ?s1 = (?s2, Some (OutOfSequence muxIsAlive))"
      using sshMuxAliveCheck_reply [of ?s1 ?c1 r pid rest] nb by simp
    have res: "?R = (?s2, Some (OutOfSequence muxIsAlive))"
      by (simp only: requestMuxSession_def h a prod.case option.case)
    show ?thesis
      unfolding res by (simp add: written_def unread_def)
  qed
  have p6: "written (fst ?R) = outq c @ [?H, ?A, ?N] \<and>
            (snd ?R = Some (OutOfSequence muxSessionOpened) \<and> unread (fst ?R) = rest \<or>
             snd ?R = Some PipeError \<and>
             unread (fst ?R) = frame (PutUint32 0x80000006 @ PutUint32 r @ PutUint32 sid) @ rest)"
    if hyp: "\<not> wbroken c \<and> r \<noteq> 1 \<and>
          inq c = frame (PutUint32 1 @ PutUint32 4) @
                  frame (PutUint32 0x80000005 @ PutUint32 0 @ PutUint32 pid) @
                  frame (PutUint32 0x80000006 @ PutUint32 r @ PutUint32 sid) @ rest"
  proof -
    let ?so = "frame (PutUint32 0x80000006 @ PutUint32 r @ PutUint32 sid)"
    from hyp have nb: "\<not> wbroken c" and r: "r \<noteq> 1"
      and inq: "inq c = frame (PutUint32 1 @ PutUint32 4) @
                  (frame (PutUint32 0x80000005 @ PutUint32 0 @ PutUint32 pid) @ ?so @ rest)"
      by simp_all
    let ?c1 = "c\<lparr>inq := frame (PutUint32 0x80000005 @ PutUint32 0 @ PutUint32 pid) @ ?so @ rest,
                 outq := outq c @ [?H]\<rparr>"
    let ?s1 = "?s0\<lparr>ctrlconn := Some ?c1\<rparr>"
    have h: "sshMuxHello ?s0 = (?s1, None)"
      by (rule sshMuxHello_accepts [OF c0 nb inq])
    let ?c2 = "?c1\<lparr>outq := outq ?c1 @ [?A], inq := ?so @ rest\<rparr>"
    let ?s2 = "?s1\<lparr>ctrlconn := Some ?c2, ctrlReqid := 1\<rparr>"
    have a: "sshMuxAliveCheck ?s1 = (?s2, None)"
      using sshMuxAliveCheck_reply [of ?s1 ?c1 0 pid "?so @ rest"] nb by simp
    let ?c3 = "?c2\<lparr>outq := outq ?c2 @ [?N]\<rparr>"
    let ?s3 = "?s2\<lparr>ctrlconn := Some ?c3\<rparr>"
    have n: "sshMuxNewSession ?s2 cmd = (?s3, None)"
      using nb by (simp add: sshMuxNewSession_def writePacket_frame newSessionMsg_def)
    have c3: "ctrlconn ?s3 = Some ?c3" and i3: "inq ?c3 = ?so @ rest"
      and w3: "written ?s3 = outq c @ [?H, ?A, ?N]"
      by (simp_all add: written_def)
    have "uint r \<noteq> 1"
      using r by (simp add: word_uint_eq_iff)
    then have ur: "uint r \<noteq> ctrlReqid ?s3"
      by simp
    obtain s4 e4 where p: "sshMuxPassFileDescriptors ?s3 = (s4, e4)"
      by (cases "sshMuxPassFileDescriptors ?s3") auto
    from sshMuxPassFileDescriptors_mismatch [OF c3 i3 ur] p i3
    have e4: "(e4 = Some (OutOfSequence muxSessionOpened) \<and> unread s4 = rest) \<or>
              (e4 = Some PipeError \<and> unread s4 = ?so @ rest)"
      by simp
    then obtain err where some: "e4 = Some err"
      by auto
    from sshMuxPassFileDescriptors_keeps [OF p] w3 have w4: "written s4 = outq c @ [?H, ?A, ?N]"
      by simp
    have res: "?R = (s4, Some err)"
      by (simp only: requestMuxSession_def h a n p some prod.case option.case)
    from e4 w4 show ?thesis
      unfolding res some by simp
  qed
  from p1 p2 p3 p4 p5 p6 show ?thesis
    by blast
qed

theorem handshake_request_ids_witness:
  "ctrlconn (handshake_session 0 1) = Some (conn0\<lparr>inq := master_replies 0 1\<rparr>) \<and>
   snd (requestMuxSession (handshake_session 0 1) ''ls'') = None \<and>
   ctrlReqid (fst (requestMuxSession (handshake_session 0 1) ''ls'')) = 2 \<and>
   written (fst (requestMuxSession (handshake_session 0 1) ''ls'')) =
     [[0, 0, 0, 8, 0, 0, 0, 1, 0, 0, 0, 4],
      [0, 0, 0, 8, 0x10, 0, 0, 4, 0, 0, 0, 0],
      [0, 0, 0, 42, 0x10, 0, 0, 2, 0, 0, 0, 1, 0, 0, 0, 0, 0, 0, 0, 0, 0, 0, 0, 0,
       0, 0, 0, 0, 0, 0, 0, 0, 0xff, 0xff, 0xff, 0xff, 0, 0, 0, 0, 0, 0, 0, 2, 108, 115]] \<and>
   snd (requestMuxSession (handshake_session 5 1) ''ls'') = Some (OutOfSequence muxIsAlive) \<and>
   written (fst (requestMuxSession (handshake_session 5 1) ''ls'')) =
     [[0, 0, 0, 8, 0, 0, 0, 1, 0, 0, 0, 4],
      [0, 0, 0, 8, 0x10, 0, 0, 4, 0, 0, 0, 0]] \<and>
   unread (fst (requestMuxSession (handshake_session 5 1) ''ls'')) =
     [0, 0, 0, 12, 0x80, 0, 0, 6, 0, 0, 0, 1, 0, 0, 0, 7] \<and>
   snd (requestMuxSession (handshake_session 0 5) ''ls'') = Some (OutOfSequence muxSessionOpened) \<and>
   written (fst (requestMuxSession (handshake_session 0 5) ''ls'')) =
     [[0, 0, 0, 8, 0, 0, 0, 1, 0, 0, 0, 4],
      [0, 0, 0, 8, 0x10, 0, 0, 4, 0, 0, 0, 0],
      [0, 0, 0, 42, 0x10, 0, 0, 2, 0, 0, 0, 1, 0, 0, 0, 0, 0, 0, 0, 0, 0, 0, 0, 0,
       0, 0, 0, 0, 0, 0, 0, 0, 0xff, 0xff, 0xff, 0xff, 0, 0, 0, 0, 0, 0, 0, 2, 108, 115]] \<and>
   unread (fst (requestMuxSession (handshake_session 0 5) ''ls'')) = []"
proof -
  let ?H = "frame (Marshal_muxMsg \<lparr>Request = 1, Param = 4\<rparr>)"
  let ?A = "frame (Marshal_muxMsg \<lparr>Request = 0x10000004, Param = 0\<rparr>)"
  have c: "ctrlconn (handshake_session a b) = Some (conn0\<lparr>inq := master_replies a b\<rparr>)" for a b
    by (simp add: handshake_session_def)
  have nb: "\<not> wbroken (conn0\<lparr>inq := master_replies a b\<rparr>)" for a b
    by (simp add: conn0_def)
  have out: "outq (conn0\<lparr>inq := master_replies a b\<rparr>) = []" for a b
    by (simp add: conn0_def)
  have H: "?H = [0, 0, 0, 8, 0, 0, 0, 1, 0, 0, 0, 4]"
    by code_simp
  have A: "?A = [0, 0, 0, 8, 0x10, 0, 0, 4, 0, 0, 0, 0]"
    by code_simp
  have N: "frame (Marshal_muxNewSessionMsg (newSessionMsg (handshake_session a b\<lparr>ctrlReqid := 1\<rparr>) ''ls'')) =
      [0, 0, 0, 42, 0x10, 0, 0, 2, 0, 0, 0, 1, 0, 0, 0, 0, 0, 0, 0, 0, 0, 0, 0, 0,
       0, 0, 0, 0, 0, 0, 0, 0, 0xff, 0xff, 0xff, 0xff, 0, 0, 0, 0, 0, 0, 0, 2, 108, 115]" for a b
  proof -
    have "newSessionMsg (handshake_session a b\<lparr>ctrlReqid := 1\<rparr>) ''ls'' =
          newSessionMsg (handshake_session 0 0\<lparr>ctrlReqid := 1\<rparr>) ''ls''"
      by (rule newSessionMsg_cong) (simp_all add: handshake_session_def)
    moreover have "frame (Marshal_muxNewSessionMsg (newSessionMsg (handshake_session 0 0\<lparr>ctrlReqid := 1\<rparr>) ''ls'')) =
      [0, 0, 0, 42, 0x10, 0, 0, 2, 0, 0, 0, 1, 0, 0, 0, 0, 0, 0, 0, 0, 0, 0, 0, 0,
       0, 0, 0, 0, 0, 0, 0, 0, 0xff, 0xff, 0xff, 0xff, 0, 0, 0, 0, 0, 0, 0, 2, 108, 115]"
      by code_simp
    ultimately show ?thesis
      by simp
  qed
  have ok: "snd (requestMuxSession (handshake_session 0 1) ''ls'') = None"
    by code_simp
  note t_ok = handshake_request_ids [OF c [of 0 1], of "''ls''"]
  have two: "ctrlReqid (fst (requestMuxSession (handshake_session 0 1) ''ls'')) = 2"
    using t_ok ok by blast
  have w_ok: "written (fst (requestMuxSession (handshake_session 0 1) ''ls'')) =
      outq (conn0\<lparr>inq := master_replies 0 1\<rparr>) @
      [?H, ?A, frame (Marshal_muxNewSessionMsg (newSessionMsg (handshake_session 0 1\<lparr>ctrlReqid := 1\<rparr>) ''ls''))]"
    using t_ok ok by blast
  have alive_in: "inq (conn0\<lparr>inq := master_replies 5 1\<rparr>) =
        frame (PutUint32 1 @ PutUint32 4) @
        frame (PutUint32 0x80000005 @ PutUint32 5 @ PutUint32 99) @
        [0, 0, 0, 12, 0x80, 0, 0, 6, 0, 0, 0, 1, 0, 0, 0, 7]"
    by (simp add: master_replies_def frame_def PutUint32_def)
  have alive: "snd (requestMuxSession (handshake_session 5 1) ''ls'') = Some (OutOfSequence muxIsAlive) \<and>
      written (fst (requestMuxSession (handshake_session 5 1) ''ls'')) =
        outq (conn0\<lparr>inq := master_replies 5 1\<rparr>) @ [?H, ?A] \<and>
      unread (fst (requestMuxSession (handshake_session 5 1) ''ls'')) =
        [0, 0, 0, 12, 0x80, 0, 0, 6, 0, 0, 0, 1, 0, 0, 0, 7]"
    using handshake_request_ids [OF c [of 5 1], where r = 5 and pid = 99 and cmd = "''ls''"
        and rest = "[0, 0, 0, 12, 0x80, 0, 0, 6, 0, 0, 0, 1, 0, 0, 0, 7]"] nb [of 5 1] alive_in
    by simp
  have opened_in: "inq (conn0\<lparr>inq := master_replies 0 5\<rparr>) =
        frame (PutUint32 1 @ PutUint32 4) @
        frame (PutUint32 0x80000005 @ PutUint32 0 @ PutUint32 99) @
        frame (PutUint32 0x80000006 @ PutUint32 5 @ PutUint32 7) @ []"
    by (simp add: master_replies_def frame_def PutUint32_def)
  have no_pipe_error: "snd (requestMuxSession (handshake_session 0 5) ''ls'') \<noteq> Some PipeError"
    by code_simp
  have opened: "written (fst (requestMuxSession (handshake_session 0 5) ''ls'')) =
        outq (conn0\<lparr>inq := master_replies 0 5\<rparr>) @
        [?H, ?A, frame (Marshal_muxNewSessionMsg (newSessionMsg (handshake_session 0 5\<lparr>ctrlReqid := 1\<rparr>) ''ls''))] \<and>
      snd (requestMuxSession (handshake_session 0 5) ''ls'') = Some (OutOfSequence muxSessionOpened) \<and>
      unread (fst (requestMuxSession (handshake_session 0 5) ''ls'')) = []"
    using handshake_request_ids [OF c [of 0 5], where r = 5 and pid = 99 and sid = 7
        and cmd = "''ls''" and rest = "[]"] nb [of 0 5] opened_in no_pipe_error
    by simp
  from c [of 0 1] ok two w_ok alive opened show ?thesis
    by (simp only: out H A N append_Nil simp_thms)
qed

subsection \<open>Close and the abort channel\<close>

lemma readPacket_aborted: "aborted (fst (readPacket s)) = aborted s"
  by (simp add: readPacket_def split: option.splits prod.splits)

lemma recvInts_aborted: "aborted (fst (recvInts s n)) = aborted s"
  using readPacket_aborted [of s]
  by (auto simp: recvInts_def split: option.splits prod.splits)

lemma writePacket_aborted: "aborted (fst (writePacket s p)) = aborted s"
  by (simp add: writePacket_def split: option.splits prod.splits)

lemma sshMuxHello_aborted: "aborted (fst (sshMuxHello s)) = aborted s"
  using recvInts_aborted [of s 2]
  by (auto simp: sshMuxHello_def writePacket_aborted split: option.splits prod.splits)

lemma sshMuxAliveCheck_aborted: "aborted (fst (sshMuxAliveCheck s)) = aborted s"
proof -
  let ?req = "Marshal_muxMsg \<lparr>Request = word_of_int muxAliveCheck, Param = word_of_int (ctrlReqid s)\<rparr>"
  obtain s1 e1 where w: "writePacket s ?req = (s1, e1)"
    by (cases "writePacket s ?req") auto
  then have a1: "aborted s1 = aborted s"
    using writePacket_aborted [of s ?req] by simp
  show ?thesis
    using recvInts_aborted [of s1 3] a1
    by (auto simp: sshMuxAliveCheck_def w split: option.splits prod.splits)
qed

lemma sshMuxNewSession_aborted: "aborted (fst (sshMuxNewSession s cmd)) = aborted s"
  by (simp add: sshMuxNewSession_def writePacket_aborted)

lemma pass_aborted:
  "aborted (fst (passStdin s)) = aborted s"
  "aborted (fst (passStdout s)) = aborted s"
  "aborted (fst (passStderr s)) = aborted s"
  by (auto simp: passStdin_def passStdout_def passStderr_def os_Pipe_def
      split: stream.splits list.splits option.splits prod.splits)

lemma fd_Put_aborted: "aborted (fd_Put s f) = aborted s"
  by (simp add: fd_Put_def split: option.splits)

lemma sshMuxPassFileDescriptors_aborted: "aborted (fst (sshMuxPassFileDescriptors s)) = aborted s"
proof -
  obtain a ea where a: "passStdin s = (a, ea)" by (cases "passStdin s") auto
  obtain b eb where b: "passStdout a = (b, eb)" by (cases "passStdout a") auto
  obtain d ed where d: "passStderr b = (d, ed)" by (cases "passStderr b") auto
  let ?p = "fd_Put (fd_Put (fd_Put d (rmuxStdin d)) (rmuxStdout (fd_Put d (rmuxStdin d))))
              (rmuxStderr (fd_Put (fd_Put d (rmuxStdin d)) (rmuxStdout (fd_Put d (rmuxStdin d)))))"
  have ab: "aborted a = aborted s" "aborted b = aborted s" "aborted d = aborted s"
    using pass_aborted(1) [of s] pass_aborted(2) [of a] pass_aborted(3) [of b] a b d by simp_all
  have "aborted (fst (recvInts ?p 3)) = aborted s"
    by (simp add: recvInts_aborted fd_Put_aborted ab)
  with ab show ?thesis
    by (auto simp: sshMuxPassFileDescriptors_def a b d Let_def split: option.splits prod.splits)
qed

lemma closeRemoteEnds_aborted: "aborted (closeRemoteEnds s) = aborted s"
  by (simp add: closeRemoteEnds_def file_Close_def Let_def split: option.splits)

lemma requestMuxSession_aborted: "aborted (fst (requestMuxSession s cmd)) = aborted s"
proof -
  obtain s1 e1 where h: "sshMuxHello (s\<lparr>ctrlReqid := 0\<rparr>) = (s1, e1)"
    by (cases "sshMuxHello (s\<lparr>ctrlReqid := 0\<rparr>)") auto
  obtain s2 e2 where a: "sshMuxAliveCheck s1 = (s2, e2)"
    by (cases "sshMuxAliveCheck s1") auto
  obtain s3 e3 where n: "sshMuxNewSession s2 cmd = (s3, e3)"
    by (cases "sshMuxNewSession s2 cmd") auto
  obtain s4 e4 where p: "sshMuxPassFileDescriptors s3 = (s4, e4)"
    by (cases "sshMuxPassFileDescriptors s3") auto
  have "aborted s1 = aborted s"
    using sshMuxHello_aborted [of "s\<lparr>ctrlReqid := 0\<rparr>"] h by simp
  moreover have "aborted s2 = aborted s1"
    using sshMuxAliveCheck_aborted [of s1] a by simp
  moreover have "aborted s3 = aborted s2"
    using sshMuxNewSession_aborted [of s2 cmd] n by simp
  moreover have "aborted s4 = aborted s3"
    using sshMuxPassFileDescriptors_aborted [of s3] p by simp
  ultimately show ?thesis
    by (auto simp: requestMuxSession_def h a n p closeRemoteEnds_aborted split: option.splits)
qed

lemma start_aborted: "aborted (fst (start s)) = aborted s"
  by (simp add: start_def stdin_def stdout_def stderr_def Let_def)

lemma Shell_aborted: "aborted (fst (Shell s)) = aborted s"
proof -
  obtain s1 e1 where o: "openCtrlConn s = (s1, e1)"
    by (cases "openCtrlConn s") auto
  then have a1: "aborted s1 = aborted s"
    by (auto simp: openCtrlConn_def split: option.splits)
  obtain s2 e2 where r: "requestMuxSession s1 [] = (s2, e2)"
    by (cases "requestMuxSession s1 []") auto
  then have "aborted s2 = aborted s1"
    using requestMuxSession_aborted [of s1 "[]"] by simp
  with a1 show ?thesis
    by (auto simp: Shell_def o r start_aborted split: option.splits)
qed

lemma Start_aborted:
  assumes "Start s cmd = (s', None)"
  shows "aborted s' = Chan 1 []"
proof -
  from assms obtain s2 where "s' = fst (start (s2\<lparr>exitStatus := Chan 1 [], aborted := Chan 1 []\<rparr>))"
    by (auto simp: Start_def start_def Let_def split: if_splits option.splits prod.splits)
  then show ?thesis
    by (simp add: start_aborted)
qed

lemma Close_result:
  "snd (Close s) =
     (case aborted s of
        NilChan \<Rightarrow> Blocked
      | Chan cap buf \<Rightarrow> if length buf < cap then Returned None else Blocked)"
  by (simp add: Close_def Let_def ctrlconn_Close_def file_Close_def
      split: option.splits chan.splits sent.splits)

text \<open>
  C2 on the code. \<^verbatim>\<open>Close\<close> ends with the send \<^verbatim>\<open>s.aborted <- true\<close>, and only
  \<^verbatim>\<open>Start\<close> makes that channel. On a session that was never started, and on every
  session started with \<^verbatim>\<open>Shell\<close>, the channel is \<^verbatim>\<open>nil\<close>: the send blocks
  forever and \<^verbatim>\<open>Close\<close> does not return. After a \<^verbatim>\<open>Start\<close> that succeeded the
  first \<^verbatim>\<open>Close\<close> does return \<^verbatim>\<open>nil\<close>.
\<close>

theorem Close_blocks_unless_started_by_Start:
  "snd (Close (NewSession e path)) = Blocked \<and>
   snd (Close (fst (Shell (NewSession e path)))) = Blocked \<and>
   (snd (Start (NewSession e path) cmd) = None \<longrightarrow>
      snd (Close (fst (Start (NewSession e path) cmd))) = Returned None)"
proof (intro conjI impI)
  have nil: "aborted (NewSession e path) = NilChan"
    by (simp add: NewSession_def)
  then show "snd (Close (NewSession e path)) = Blocked"
    by (simp add: Close_result)
  from nil show "snd (Close (fst (Shell (NewSession e path)))) = Blocked"
    by (simp add: Close_result Shell_aborted)
  assume "snd (Start (NewSession e path) cmd) = None"
  then have "Start (NewSession e path) cmd = (fst (Start (NewSession e path) cmd), None)"
    by (metis prod.collapse)
  from Start_aborted [OF this] show "snd (Close (fst (Start (NewSession e path) cmd))) = Returned None"
    by (simp add: Close_result)
qed

theorem Close_blocks_unless_started_by_Start_witness:
  "snd (Shell (NewSession (env_with (master_replies 0 1)) ''/tmp/ctl'')) = None \<and>
   started (fst (Shell (NewSession (env_with (master_replies 0 1)) ''/tmp/ctl''))) \<and>
   snd (Close (fst (Shell (NewSession (env_with (master_replies 0 1)) ''/tmp/ctl'')))) = Blocked \<and>
   snd (Start (NewSession (env_with (master_replies 0 1)) ''/tmp/ctl'') ''ls'') = None \<and>
   snd (Close (fst (Start (NewSession (env_with (master_replies 0 1)) ''/tmp/ctl'') ''ls''))) = Returned None"
proof -
  let ?n = "NewSession (env_with (master_replies 0 1)) ''/tmp/ctl''"
  have sh: "snd (Shell ?n) = None" "started (fst (Shell ?n))"
    by code_simp+
  have st: "snd (Start ?n ''ls'') = None"
    by code_simp
  from Close_blocks_unless_started_by_Start [of "env_with (master_replies 0 1)" "''/tmp/ctl''" "''ls''"]
    sh st show ?thesis
    by simp
qed

subsection \<open>RequestPty\<close>

lemma readPacket_term:
  "readPacket (s\<lparr>term_type := t\<rparr>) =
     (case readPacket s of (s1, p, e) \<Rightarrow> (s1\<lparr>term_type := t\<rparr>, p, e))"
  by (simp add: readPacket_def split: option.splits prod.splits)

lemma wait_pass_term:
  "wait_pass (s\<lparr>term_type := t\<rparr>) wm seen =
     (case wait_pass s wm seen of
        Break s1 wm1 seen1 \<Rightarrow> Break (s1\<lparr>term_type := t\<rparr>) wm1 seen1
      | Continue s1 wm1 seen1 \<Rightarrow> Continue (s1\<lparr>term_type := t\<rparr>) wm1 seen1)"
proof -
  obtain s1 p e where rd: "readPacket s = (s1, p, e)"
    by (cases "readPacket s") auto
  have sid: "ctrlSessid (s1\<lparr>term_type := t\<rparr>) = ctrlSessid s1"
    by simp
  show ?thesis
    by (simp add: wait_pass_def readPacket_term rd split: option.splits prod.splits)
qed

lemma wait_loop_term:
  "wait_loop (s\<lparr>term_type := t\<rparr>) wm seen =
     (case wait_loop s wm seen of (s', wm', seen') \<Rightarrow> (s'\<lparr>term_type := t\<rparr>, wm', seen'))"
proof (induction s wm seen rule: wait_loop.induct)
  case (1 s wm seen)
  show ?case
  proof (cases "wait_pass s wm seen")
    case (Break s1 wm1 seen1)
    then show ?thesis
      by (simp add: wait_loop.simps [of s wm seen] wait_loop.simps [of "s\<lparr>term_type := t\<rparr>" wm seen]
            wait_pass_term)
  next
    case (Continue s1 wm1 seen1)
    from "1.IH" [OF Continue] Continue show ?thesis
      by (simp add: wait_loop.simps [of s wm seen] wait_loop.simps [of "s\<lparr>term_type := t\<rparr>" wm seen]
            wait_pass_term)
  qed
qed

lemma wait_term: "snd (wait (s\<lparr>term_type := t\<rparr>)) = snd (wait s)"
  by (simp add: wait_def wait_loop_term split: prod.splits)

text \<open>
  C10. \<^verbatim>\<open>RequestPty\<close> looks at nothing: on every session, started or not, it
  returns \<^verbatim>\<open>nil\<close> and leaves the session as it was but for the terminal type,
  which is now the argument (a second call overwrites the first). The terminal
  type goes into the NewSession request that the handshake builds, as the tty flag
  and the terminal name; what the reader hands to \<^verbatim>\<open>Wait\<close> and whether \<^verbatim>\<open>Close\<close>
  returns do not depend on it.
\<close>

theorem RequestPty_unconditional:
  "snd (RequestPty s t) = None \<and>
   fst (RequestPty s t) = s\<lparr>term_type := t\<rparr> \<and>
   fst (RequestPty (fst (RequestPty s t)) t') = fst (RequestPty s t') \<and>
   newSessionMsg (fst (RequestPty s t)) cmd =
     (newSessionMsg s cmd)\<lparr>nTtyFlags := (if t = [] then 0 else 1), nTerm := t\<rparr> \<and>
   snd (wait (fst (RequestPty s t))) = snd (wait s) \<and>
   snd (Close (fst (RequestPty s t))) = snd (Close s)"
  by (simp add: RequestPty_def newSessionMsg_def wait_term Close_result)

end
